theory Spec2Isabelle
  imports Main
begin

section \<open>Values of the runtime\<close>

text \<open>
  The service is \<^verbatim>\<open>src/index.js\<close>: an Express application with two capture endpoints,
  a validator, a device table and a periodic sweep of a temporary directory.

  A JavaScript string is modelled as a \<^typ>\<open>string\<close>: the list of its code units, each
  below 256. A query parameter is a \<^typ>\<open>string option\<close>, \<open>None\<close> being
  \<^verbatim>\<open>undefined\<close> (the parameter is absent from the query string); the arrays and
  objects that Express builds from repeated or bracketed parameters are left out. A
  call that may throw returns an \<open>outcome\<close>: \<open>Throws m\<close> is a thrown \<^verbatim>\<open>Error\<close>
  whose \<^verbatim>\<open>message\<close> is \<open>m\<close>. Times are integers, in milliseconds, printed in
  decimal.
\<close>

datatype 'a outcome = Returns 'a | Throws string

type_synonym bytes = "nat list"

datatype json = JNumber int | JString string | JBool bool | JObject "(string \<times> json) list"

subsection \<open>\<^verbatim>\<open>Array.prototype.join\<close>, \<^verbatim>\<open>String.prototype.endsWith\<close>, \<^verbatim>\<open>Number.prototype.toString\<close>\<close>

fun join :: "string \<Rightarrow> string list \<Rightarrow> string" where
  "join sep [] = []"
| "join sep [x] = x"
| "join sep (x # y # ys) = x @ sep @ join sep (y # ys)"

definition endsWith :: "string \<Rightarrow> string \<Rightarrow> bool" where
  "endsWith s suffix =
     (length suffix \<le> length s \<and> drop (length s - length suffix) s = suffix)"

definition digitChar :: "nat \<Rightarrow> char" where
  "digitChar n = char_of (48 + n)"

fun decimal :: "nat \<Rightarrow> string" where
  "decimal n = (if n < 10 then [digitChar n] else decimal (n div 10) @ [digitChar (n mod 10)])"

declare decimal.simps [simp del]

definition toString :: "int \<Rightarrow> string" where
  "toString i = (if i < 0 then CHR ''-'' # decimal (nat (- i)) else decimal (nat i))"

subsection \<open>\<^verbatim>\<open>parseInt\<close> with no radix argument\<close>

text \<open>
  ECMAScript's \<^verbatim>\<open>parseInt(string)\<close>: leading white space is dropped, then an optional
  sign, then an optional \<^verbatim>\<open>0x\<close> or \<^verbatim>\<open>0X\<close> (which selects radix 16, otherwise 10),
  and the longest run of digits of the radix is read. With no digit the result is
  \<^verbatim>\<open>NaN\<close>, here \<open>None\<close>. The result is the mathematical integer; the runtime
  rounds it to a double, which changes neither whether it is zero, nor its sign, nor
  how it compares with 30, and changes no value below \<open>2^53\<close> in magnitude.
\<close>

definition isStrWhiteSpaceChar :: "char \<Rightarrow> bool" where
  "isStrWhiteSpaceChar c = ((of_char c :: nat) \<in> set [9, 10, 11, 12, 13, 32, 160])"

definition digitValue :: "char \<Rightarrow> nat option" where
  "digitValue c =
     (let n = (of_char c :: nat) in
      if 48 \<le> n \<and> n \<le> 57 then Some (n - 48)
      else if 97 \<le> n \<and> n \<le> 122 then Some (n - 87)
      else if 65 \<le> n \<and> n \<le> 90 then Some (n - 55)
      else None)"

definition radixDigit :: "nat \<Rightarrow> char \<Rightarrow> nat option" where
  "radixDigit R c = (case digitValue c of None \<Rightarrow> None | Some v \<Rightarrow> if v < R then Some v else None)"

definition isRadixDigit :: "nat \<Rightarrow> char \<Rightarrow> bool" where
  "isRadixDigit R c = (radixDigit R c \<noteq> None)"

definition mathInt :: "nat \<Rightarrow> string \<Rightarrow> nat" where
  "mathInt R Z = foldl (\<lambda>acc c. acc * R + (case radixDigit R c of None \<Rightarrow> 0 | Some v \<Rightarrow> v)) 0 Z"

definition parseInt :: "string \<Rightarrow> int option" where
  "parseInt inputString =
     (let S = dropWhile isStrWhiteSpaceChar inputString;
          sign = (if S \<noteq> [] \<and> hd S = CHR ''-'' then - 1 else 1 :: int);
          S1 = (if S \<noteq> [] \<and> (hd S = CHR ''+'' \<or> hd S = CHR ''-'') then tl S else S);
          hex = (2 \<le> length S1 \<and> (take 2 S1 = ''0x'' \<or> take 2 S1 = ''0X''));
          R = (if hex then 16 else 10);
          S2 = (if hex then drop 2 S1 else S1);
          Z = takeWhile (isRadixDigit R) S2
      in if Z = [] then None else Some (sign * int (mathInt R Z)))"

section \<open>The duration of a recording\<close>

text \<open>
  Line 90 gives \<^verbatim>\<open>duration\<close> the default \<^verbatim>\<open>'10'\<close> when the parameter is absent, and
  line 117 computes \<^verbatim>\<open>Math.min(parseInt(duration) || 10, 30)\<close>. The operator
  \<^verbatim>\<open>||\<close> takes its right operand when the left one is \<^verbatim>\<open>NaN\<close> or zero.
\<close>

definition durationParam :: "string option \<Rightarrow> string" where
  "durationParam duration = (case duration of None \<Rightarrow> ''10'' | Some d \<Rightarrow> d)"

definition orTen :: "int option \<Rightarrow> int" where
  "orTen n = (case n of None \<Rightarrow> 10 | Some v \<Rightarrow> if v = 0 then 10 else v)"

definition recordDuration :: "string option \<Rightarrow> int" where
  "recordDuration duration = min (orTen (parseInt (durationParam duration))) 30"

section \<open>Input Validator\<close>

text \<open>
  \<^verbatim>\<open>validateInput\<close>, lines 17 to 29. The constructor \<^verbatim>\<open>new URL(url)\<close> belongs to the
  runtime, not to the repository: the validator takes its verdict as the parameter
  \<open>parses\<close>, true where the constructor returns and false where it throws.
  \<^verbatim>\<open>!url\<close> holds for \<^verbatim>\<open>undefined\<close> and for the empty string, and the guard
  \<^verbatim>\<open>device &&\<close> fails for them too.
\<close>

definition validDevices :: "string list" where
  "validDevices = [''phone'', ''tablet'', ''laptop'', ''desktop'', ''full'']"

definition falsy :: "string option \<Rightarrow> bool" where
  "falsy v = (case v of None \<Rightarrow> True | Some s \<Rightarrow> s = [])"

definition validateInput :: "(string \<Rightarrow> bool) \<Rightarrow> string option \<Rightarrow> string option \<Rightarrow> string option" where
  "validateInput parses url device =
     (if falsy url then Some ''URL parameter is required''
      else if \<not> parses (the url) then Some ''Invalid URL format''
      else if \<not> falsy device \<and> the device \<notin> set validDevices
        then Some (''Invalid device. Must be one of: '' @ join '', '' validDevices)
      else None)"

section \<open>Device Profile Table\<close>

text \<open>
  \<^verbatim>\<open>deviceConfigs\<close>, lines 31 to 37. The entry of \<^verbatim>\<open>full\<close> is \<^verbatim>\<open>null\<close>, here
  \<open>FullPage\<close>; \<open>deviceProfile tag\<close> is \<^verbatim>\<open>deviceConfigs[tag]\<close>, with \<open>None\<close> for
  \<^verbatim>\<open>undefined\<close>.
\<close>

record viewport =
  width :: int
  height :: int

datatype profile = Viewport viewport | FullPage

definition deviceConfigs :: "(string \<times> profile) list" where
  "deviceConfigs =
     [(''phone'', Viewport \<lparr>width = 375, height = 667\<rparr>),
      (''tablet'', Viewport \<lparr>width = 768, height = 1024\<rparr>),
      (''laptop'', Viewport \<lparr>width = 1366, height = 768\<rparr>),
      (''desktop'', Viewport \<lparr>width = 1920, height = 1080\<rparr>),
      (''full'', FullPage)]"

definition deviceProfile :: "string \<Rightarrow> profile option" where
  "deviceProfile tag = map_of deviceConfigs tag"

section \<open>The temporary directory\<close>

text \<open>
  \<^verbatim>\<open>tempDir\<close> is a list of entries in the order \<^verbatim>\<open>readdirSync\<close> lists them, which
  on the runtime is the order of their names. Each
  entry carries what the file system answers for it: its modification time in
  milliseconds, its bytes, and for each of \<^verbatim>\<open>statSync\<close>, \<^verbatim>\<open>readFileSync\<close> and
  \<^verbatim>\<open>unlinkSync\<close> the error the call throws on it, if any. \<^verbatim>\<open>path.join(tempDir, file)\<close>
  addresses the entry named \<^verbatim>\<open>file\<close>.
\<close>

record tempFile =
  name :: string
  mtime :: int
  content :: bytes
  statError :: "string option"
  readError :: "string option"
  unlinkError :: "string option"

record directory =
  entries :: "tempFile list"
  readdirError :: "string option"

definition readdirSync :: "directory \<Rightarrow> string list outcome" where
  "readdirSync d =
     (case readdirError d of Some m \<Rightarrow> Throws m | None \<Rightarrow> Returns (map name (entries d)))"

definition lookupFile :: "directory \<Rightarrow> string \<Rightarrow> tempFile option" where
  "lookupFile d n = find (\<lambda>f. name f = n) (entries d)"

definition statSync :: "directory \<Rightarrow> string \<Rightarrow> int outcome" where
  "statSync d n =
     (case lookupFile d n of
        None \<Rightarrow> Throws ''ENOENT: no such file or directory''
      | Some f \<Rightarrow> (case statError f of Some m \<Rightarrow> Throws m | None \<Rightarrow> Returns (mtime f)))"

definition readFileSync :: "directory \<Rightarrow> string \<Rightarrow> bytes outcome" where
  "readFileSync d n =
     (case lookupFile d n of
        None \<Rightarrow> Throws ''ENOENT: no such file or directory''
      | Some f \<Rightarrow> (case readError f of Some m \<Rightarrow> Throws m | None \<Rightarrow> Returns (content f)))"

definition unlinkSync :: "directory \<Rightarrow> string \<Rightarrow> directory outcome" where
  "unlinkSync d n =
     (case lookupFile d n of
        None \<Rightarrow> Throws ''ENOENT: no such file or directory''
      | Some f \<Rightarrow>
          (case unlinkError f of
             Some m \<Rightarrow> Throws m
           | None \<Rightarrow> Returns (d\<lparr>entries := filter (\<lambda>g. name g \<noteq> n) (entries d)\<rparr>)))"

section \<open>Retention Sweeper\<close>

text \<open>
  \<^verbatim>\<open>cleanupTempFiles\<close>, lines 39 to 52. \<open>sweepEach\<close> is the \<^verbatim>\<open>forEach\<close> of lines 44
  to 50 over the names \<^verbatim>\<open>readdirSync\<close> returned: it yields the directory as the loop
  left it and the error that ended the loop, if one was thrown. The \<^verbatim>\<open>try\<close> of line
  42 encloses the whole loop, and the \<^verbatim>\<open>catch\<close> of line 51 is empty. The timer of
  line 54 calls \<^verbatim>\<open>cleanupTempFiles\<close> every 30 minutes; \<open>now\<close> is the reading of
  \<^verbatim>\<open>Date.now()\<close> at line 40.
\<close>

definition thirtyMinutes :: int where
  "thirtyMinutes = 30 * 60 * 1000"

fun sweepEach :: "int \<Rightarrow> string list \<Rightarrow> directory \<Rightarrow> directory \<times> string option" where
  "sweepEach now [] d = (d, None)"
| "sweepEach now (n # ns) d =
     (case statSync d n of
        Throws m \<Rightarrow> (d, Some m)
      | Returns t \<Rightarrow>
          if now - t > thirtyMinutes
          then (case unlinkSync d n of
                  Throws m \<Rightarrow> (d, Some m)
                | Returns d' \<Rightarrow> sweepEach now ns d')
          else sweepEach now ns d)"

definition cleanupTempFiles :: "int \<Rightarrow> directory \<Rightarrow> directory" where
  "cleanupTempFiles now d =
     (case readdirSync d of
        Throws m \<Rightarrow> d
      | Returns files \<Rightarrow> fst (sweepEach now files d))"

section \<open>The response object\<close>

text \<open>
  The Express response of one request: the status code and headers set so far, and
  what went out on the wire once \<^verbatim>\<open>send\<close> or \<^verbatim>\<open>json\<close> ran. After that, setting a
  header or sending again throws, as Node's \<^verbatim>\<open>setHeader\<close> does. A JSON body is kept
  as a value; its serialisation and the content type Express adds to it are left out.
\<close>

datatype body = JsonBody json | BufferBody bytes

record reply =
  code :: nat
  hdrs :: "(string \<times> string) list"
  payload :: body

record response =
  statusCode :: nat
  headers :: "(string \<times> string) list"
  sent :: "reply option"

definition newResponse :: response where
  "newResponse = \<lparr>statusCode = 200, headers = [], sent = None\<rparr>"

definition headersSent :: string where
  "headersSent = ''Cannot set headers after they are sent to the client''"

definition status :: "nat \<Rightarrow> response \<Rightarrow> response" where
  "status n r = r\<lparr>statusCode := n\<rparr>"

definition setHeader :: "string \<Rightarrow> string \<Rightarrow> response \<Rightarrow> response outcome" where
  "setHeader k v r =
     (if sent r \<noteq> None then Throws headersSent
      else Returns (r\<lparr>headers := filter (\<lambda>h. fst h \<noteq> k) (headers r) @ [(k, v)]\<rparr>))"

definition send :: "body \<Rightarrow> response \<Rightarrow> response outcome" where
  "send b r =
     (if sent r \<noteq> None then Throws headersSent
      else Returns (r\<lparr>sent := Some \<lparr>code = statusCode r, hdrs = headers r, payload = b\<rparr>\<rparr>))"

section \<open>The rendering engine and the state of one request\<close>

text \<open>
  Playwright is outside the repository. \<open>engine\<close> holds, for each awaited call of the
  two handlers, whether it returns or throws (a navigation timeout is a throw):
  \<open>launch\<close> (lines 63 and 99), \<open>newContext\<close> (104), \<open>newPage\<close> (67 and 111),
  \<open>setViewportSize\<close> (68 and 112), \<open>goto\<close> (69 and 114), \<open>settle\<close> (the wait of
  lines 70 and 115), \<open>screenshot\<close> (72), \<open>recording\<close> (the wait of line 118),
  \<open>contextClose\<close> (120) and \<open>contextCloseAgain\<close> (138). \<open>calls\<close> records the calls
  made, with their arguments, in order; \<open>SetTimeout\<close> is the timer of line 121.
  \<^verbatim>\<open>browser.close()\<close> ends the browser process: \<open>running\<close> counts the browser
  processes alive. \<open>runtime\<close> holds the verdicts of \<^verbatim>\<open>new URL\<close> and the readings of
  \<^verbatim>\<open>Date.now()\<close> at lines 74, 96 and 124, the last one taken once for the whole
  scan of line 124.

  \<open>temp\<close> is the temporary directory as lines 123 to 135 find it: the handlers do
  not touch it before, and that block runs without interruption.
\<close>

datatype call =
    Launch
  | NewContext "profile option"
  | NewPage
  | SetViewportSize "profile option"
  | Goto string
  | WaitForTimeout int
  | Screenshot bool
  | CloseContext
  | SetTimeout int
  | CloseBrowser

record engine =
  launch :: "unit outcome"
  newContext :: "unit outcome"
  newPage :: "unit outcome"
  setViewportSize :: "unit outcome"
  goto :: "unit outcome"
  settle :: "unit outcome"
  screenshot :: "bytes outcome"
  recording :: "unit outcome"
  contextClose :: "unit outcome"
  contextCloseAgain :: "unit outcome"

record runtime =
  parsesURL :: "string \<Rightarrow> bool"
  nowAtFilename :: int
  nowAtRecordingId :: int
  nowAtScan :: int

record query =
  url :: "string option"
  device :: "string option"
  duration :: "string option"

record world =
  running :: nat
  temp :: directory

record state = world +
  calls :: "call list"
  res :: response
  browser :: bool
  ctx :: bool

type_synonym step = "state \<Rightarrow> state \<times> string option"

definition enter :: "world \<Rightarrow> state" where
  "enter w =
     \<lparr>running = running w, temp = temp w, calls = [], res = newResponse,
      browser = False, ctx = False\<rparr>"

text \<open>
  Statements in sequence: the first that throws ends the block. \<open>tryCatchFinally\<close>
  is JavaScript's statement: the handler runs when the block threw, the finalizer
  runs in every case, and what the handler throws leaves the statement after the
  finalizer has run.
\<close>

fun statements :: "step list \<Rightarrow> step" where
  "statements [] s = (s, None)"
| "statements (f # fs) s =
     (case f s of (s', None) \<Rightarrow> statements fs s' | (s', Some m) \<Rightarrow> (s', Some m))"

definition onlyIf :: "bool \<Rightarrow> step \<Rightarrow> step" where
  "onlyIf b f s = (if b then f s else (s, None))"

definition tryCatchFinally :: "step \<Rightarrow> (string \<Rightarrow> step) \<Rightarrow> (state \<Rightarrow> state) \<Rightarrow> step" where
  "tryCatchFinally block handler finalizer s =
     (case block s of
        (s1, None) \<Rightarrow> (finalizer s1, None)
      | (s1, Some m) \<Rightarrow> (case handler m s1 of (s2, r) \<Rightarrow> (finalizer s2, r)))"

definition engineCall :: "call \<Rightarrow> unit outcome \<Rightarrow> step" where
  "engineCall c r s =
     (s\<lparr>calls := calls s @ [c]\<rparr>, case r of Returns u \<Rightarrow> None | Throws m \<Rightarrow> Some m)"

definition launchBrowser :: "engine \<Rightarrow> step" where
  "launchBrowser e s =
     (case launch e of
        Throws m \<Rightarrow> (s\<lparr>calls := calls s @ [Launch]\<rparr>, Some m)
      | Returns u \<Rightarrow>
          (s\<lparr>calls := calls s @ [Launch], browser := True, running := Suc (running s)\<rparr>, None))"

definition closeBrowser :: "state \<Rightarrow> state" where
  "closeBrowser s = s\<lparr>calls := calls s @ [CloseBrowser], running := running s - 1\<rparr>"

definition closeIfLaunched :: "state \<Rightarrow> state" where
  "closeIfLaunched s = (if browser s then closeBrowser s else s)"

fun setHeaders :: "(string \<times> string) list \<Rightarrow> response \<Rightarrow> response outcome" where
  "setHeaders [] r = Returns r"
| "setHeaders (h # hs) r =
     (case setHeader (fst h) (snd h) r of Throws m \<Rightarrow> Throws m | Returns r' \<Rightarrow> setHeaders hs r')"

definition respond :: "(string \<times> string) list \<Rightarrow> body \<Rightarrow> response \<Rightarrow> response outcome" where
  "respond hs b r = (case setHeaders hs r of Throws m \<Rightarrow> Throws m | Returns r' \<Rightarrow> send b r')"

definition sendJson :: "nat \<Rightarrow> json \<Rightarrow> step" where
  "sendJson n obj s =
     (let r = status n (res s) in
      case send (JsonBody obj) r of
        Throws m \<Rightarrow> (s\<lparr>res := r\<rparr>, Some m)
      | Returns r' \<Rightarrow> (s\<lparr>res := r'\<rparr>, None))"

definition errorBody :: "string \<Rightarrow> string \<Rightarrow> json" where
  "errorBody category message =
     JObject [(''status'', JNumber 500), (''success'', JString ''false''),
              (''creator'', JString ''GiftedTech''), (''error'', JString category),
              (''message'', JString message)]"

definition deviceParam :: "string option \<Rightarrow> string" where
  "deviceParam d = (case d of None \<Rightarrow> ''desktop'' | Some tag \<Rightarrow> tag)"

section \<open>\<^verbatim>\<open>GET /api/screenshot\<close>\<close>

text \<open>
  Lines 56 to 87. \<open>imageHeaders\<close> are the headers of lines 73 and 74;
  \<open>screenshot_try\<close> is the block of lines 63 to 75,
  \<open>screenshot_catch\<close> lines 77 to 83, and the finalizer \<open>closeIfLaunched\<close> line 85.
  The result is the state the handler leaves and, when the handler's promise
  rejects, the message it rejects with.
\<close>

definition imageHeaders :: "string \<Rightarrow> int \<Rightarrow> (string \<times> string) list" where
  "imageHeaders dev now =
     [(''Content-Type'', ''image/png''),
      (''Content-Disposition'',
       ''inline; filename='' @ [CHR 0x22] @ ''gifted_ssweb-'' @ dev @ ''-'' @ toString now
         @ ''.png'' @ [CHR 0x22])]"

definition takeScreenshot :: "runtime \<Rightarrow> engine \<Rightarrow> string \<Rightarrow> step" where
  "takeScreenshot rt e dev s =
     (let s1 = s\<lparr>calls := calls s @ [Screenshot (dev = ''full'')]\<rparr> in
      case screenshot e of
        Throws m \<Rightarrow> (s1, Some m)
      | Returns png \<Rightarrow>
          (case respond (imageHeaders dev (nowAtFilename rt)) (BufferBody png) (res s1) of
             Throws m \<Rightarrow> (s1, Some m)
           | Returns r \<Rightarrow> (s1\<lparr>res := r\<rparr>, None)))"

definition screenshot_try :: "runtime \<Rightarrow> engine \<Rightarrow> string \<Rightarrow> string \<Rightarrow> step" where
  "screenshot_try rt e address dev =
     statements
       [launchBrowser e,
        engineCall NewPage (newPage e),
        onlyIf (dev \<noteq> ''full'') (engineCall (SetViewportSize (deviceProfile dev)) (setViewportSize e)),
        engineCall (Goto address) (goto e),
        engineCall (WaitForTimeout 2000) (settle e),
        takeScreenshot rt e dev]"

definition screenshot_catch :: "string \<Rightarrow> step" where
  "screenshot_catch message = sendJson 500 (errorBody ''Error creating screenshot'' message)"

definition api_screenshot :: "runtime \<Rightarrow> engine \<Rightarrow> query \<Rightarrow> world \<Rightarrow> state \<times> string option" where
  "api_screenshot rt e q w =
     (let dev = deviceParam (device q) in
      case validateInput (parsesURL rt) (url q) (Some dev) of
        Some validationError \<Rightarrow>
          sendJson 400 (JObject [(''error'', JString validationError)]) (enter w)
      | None \<Rightarrow>
          tryCatchFinally (screenshot_try rt e (the (url q)) dev) screenshot_catch
            closeIfLaunched (enter w))"

section \<open>\<^verbatim>\<open>GET /api/screenrecord\<close>\<close>

text \<open>
  Lines 89 to 149. \<open>findRecent\<close> is the \<^verbatim>\<open>find\<close> of line 124 over the names that
  end in \<^verbatim>\<open>.webm\<close>; \<open>videoHeaders\<close> are the headers of lines 131 and 132;
  \<open>correlate\<close> is lines 123 to 135; \<open>screenrecord_try\<close> is the
  block of lines 99 to 135 and \<open>screenrecord_catch\<close> lines 138 to 145.
\<close>

definition newRecordingContext :: "engine \<Rightarrow> string \<Rightarrow> step" where
  "newRecordingContext e dev s =
     (let size = (if dev \<noteq> ''full'' then deviceProfile dev
                  else Some (Viewport \<lparr>width = 1920, height = 1080\<rparr>));
          s1 = s\<lparr>calls := calls s @ [NewContext size]\<rparr>
      in case newContext e of
           Throws m \<Rightarrow> (s1, Some m)
         | Returns u \<Rightarrow> (s1\<lparr>ctx := True\<rparr>, None))"

fun findRecent :: "int \<Rightarrow> directory \<Rightarrow> string list \<Rightarrow> string option outcome" where
  "findRecent now d [] = Returns None"
| "findRecent now d (n # ns) =
     (case statSync d n of
        Throws m \<Rightarrow> Throws m
      | Returns t \<Rightarrow> if t > now - 10000 then Returns (Some n) else findRecent now d ns)"

definition videoHeaders :: "string \<Rightarrow> string \<Rightarrow> (string \<times> string) list" where
  "videoHeaders dev recordingId =
     [(''Content-Type'', ''video/webm''),
      (''Content-Disposition'',
       ''inline; filename='' @ [CHR 0x22] @ ''gifted_ssweb_rec-'' @ dev @ ''-'' @ recordingId
         @ ''.webm'' @ [CHR 0x22])]"

definition correlate :: "runtime \<Rightarrow> string \<Rightarrow> string \<Rightarrow> step" where
  "correlate rt dev recordingId s =
     (case readdirSync (temp s) of
        Throws m \<Rightarrow> (s, Some m)
      | Returns names \<Rightarrow>
          (case findRecent (nowAtScan rt) (temp s) (filter (\<lambda>f. endsWith f ''.webm'') names) of
             Throws m \<Rightarrow> (s, Some m)
           | Returns videoFile \<Rightarrow>
               if falsy videoFile then (s, Some ''Video file not found'')
               else
                 (case readFileSync (temp s) (the videoFile) of
                    Throws m \<Rightarrow> (s, Some m)
                  | Returns videoBuffer \<Rightarrow>
                      (case respond (videoHeaders dev recordingId) (BufferBody videoBuffer) (res s) of
                         Throws m \<Rightarrow> (s, Some m)
                       | Returns r \<Rightarrow>
                           (case unlinkSync (temp s) (the videoFile) of
                              Throws m \<Rightarrow> (s\<lparr>res := r\<rparr>, Some m)
                            | Returns d \<Rightarrow> (s\<lparr>res := r, temp := d\<rparr>, None))))))"

definition screenrecord_try ::
  "runtime \<Rightarrow> engine \<Rightarrow> string \<Rightarrow> string \<Rightarrow> string option \<Rightarrow> string \<Rightarrow> step" where
  "screenrecord_try rt e address dev dur recordingId =
     statements
       [launchBrowser e,
        newRecordingContext e dev,
        engineCall NewPage (newPage e),
        onlyIf (dev \<noteq> ''full'') (engineCall (SetViewportSize (deviceProfile dev)) (setViewportSize e)),
        engineCall (Goto address) (goto e),
        engineCall (WaitForTimeout 3000) (settle e),
        engineCall (WaitForTimeout (recordDuration dur * 1000)) (recording e),
        engineCall CloseContext (contextClose e),
        engineCall (SetTimeout 2000) (Returns ()),
        correlate rt dev recordingId]"

definition screenrecord_catch :: "engine \<Rightarrow> string \<Rightarrow> step" where
  "screenrecord_catch e message s =
     statements
       [onlyIf (ctx s) (engineCall CloseContext (contextCloseAgain e)),
        sendJson 500 (errorBody ''Error creating screen recording'' message)] s"

definition api_screenrecord :: "runtime \<Rightarrow> engine \<Rightarrow> query \<Rightarrow> world \<Rightarrow> state \<times> string option" where
  "api_screenrecord rt e q w =
     (let dev = deviceParam (device q) in
      case validateInput (parsesURL rt) (url q) (Some dev) of
        Some validationError \<Rightarrow>
          sendJson 400 (JObject [(''error'', JString validationError)]) (enter w)
      | None \<Rightarrow>
          tryCatchFinally
            (screenrecord_try rt e (the (url q)) dev (duration q) (toString (nowAtRecordingId rt)))
            (screenrecord_catch e) closeIfLaunched (enter w))"

section \<open>Notions used in the statements\<close>

text \<open>
  A file is expired at \<open>now\<close> when line 47 holds for it. A directory is fault-free when
  no call on it or on one of its entries throws. Its names are unique when no two
  entries share a name, as in every directory.
\<close>

definition expired :: "int \<Rightarrow> tempFile \<Rightarrow> bool" where
  "expired now f = (now - mtime f > thirtyMinutes)"

definition faultFree :: "directory \<Rightarrow> bool" where
  "faultFree d =
     (readdirError d = None \<and>
      list_all (\<lambda>f. statError f = None \<and> readError f = None \<and> unlinkError f = None) (entries d))"

definition uniqueNames :: "directory \<Rightarrow> bool" where
  "uniqueNames d = distinct (map name (entries d))"

text \<open>A sweep throws when \<^verbatim>\<open>readdirSync\<close> or a call made in the loop throws.\<close>

definition sweepThrows :: "int \<Rightarrow> directory \<Rightarrow> bool" where
  "sweepThrows now d =
     (case readdirSync d of
        Throws m \<Rightarrow> True
      | Returns files \<Rightarrow> snd (sweepEach now files d) \<noteq> None)"

text \<open>
  \<open>closes s\<close> counts the calls of \<^verbatim>\<open>browser.close()\<close> made so far. A step keeps the
  browser when it neither starts nor ends a browser process and leaves the variable
  \<^verbatim>\<open>browser\<close> as it is.
\<close>

definition closes :: "state \<Rightarrow> nat" where
  "closes s = count_list (calls s) CloseBrowser"

definition keepsBrowser :: "step \<Rightarrow> bool" where
  "keepsBrowser f =
     (\<forall>s. running (fst (f s)) = running s \<and> browser (fst (f s)) = browser s
          \<and> closes (fst (f s)) = closes s)"


definition recentVideo :: "int \<Rightarrow> tempFile \<Rightarrow> bool" where
  "recentVideo now f = (endsWith (name f) ''.webm'' \<and> mtime f > now - 10000)"

text \<open>
  The block of lines 123 to 135 throws on the file system when \<^verbatim>\<open>readdirSync\<close>, a
  \<^verbatim>\<open>statSync\<close> of the scan, the \<^verbatim>\<open>readFileSync\<close> or the \<^verbatim>\<open>unlinkSync\<close> it makes
  throws. Calls the block does not make do not count.
\<close>

definition correlateThrows :: "int \<Rightarrow> directory \<Rightarrow> bool" where
  "correlateThrows now d =
     (case readdirSync d of
        Throws m \<Rightarrow> True
      | Returns names \<Rightarrow>
          (case findRecent now d (filter (\<lambda>f. endsWith f ''.webm'') names) of
             Throws m \<Rightarrow> True
           | Returns videoFile \<Rightarrow>
               if falsy videoFile then False
               else
                 (case readFileSync d (the videoFile) of
                    Throws m \<Rightarrow> True
                  | Returns videoBuffer \<Rightarrow>
                      (case unlinkSync d (the videoFile) of
                         Throws m \<Rightarrow> True
                       | Returns d' \<Rightarrow> False))))"

text \<open>
  The engine reaches the recording wait for a device when every call before line 118
  returned.
\<close>

definition reachesRecording :: "engine \<Rightarrow> string \<Rightarrow> bool" where
  "reachesRecording e dev =
     (launch e = Returns () \<and> newContext e = Returns () \<and> newPage e = Returns ()
      \<and> (dev \<noteq> ''full'' \<longrightarrow> setViewportSize e = Returns ())
      \<and> goto e = Returns () \<and> settle e = Returns ())"

section \<open>Concrete runs\<close>

text \<open>
  Values for evaluating the model. \<open>parsesExample\<close> stands for \<^verbatim>\<open>new URL\<close> on the
  addresses used below: it accepts \<^verbatim>\<open>https://example.com\<close>, as the constructor does,
  and rejects the others, among them \<^verbatim>\<open>not-a-url\<close>, which the constructor rejects
  too. \<open>engineOK\<close> is a browser whose every call returns. \<open>plainFile\<close> is a file on
  which every call returns; \<open>unreadable\<close> is a file the process may not read;
  \<open>subdirectory\<close> is an entry that is a directory, which can be neither read nor
  unlinked as a file; \<open>vanished\<close> is an entry removed since the directory was listed.
\<close>

definition parsesExample :: "string \<Rightarrow> bool" where
  "parsesExample u = (u = ''https://example.com'')"

definition exampleRuntime :: runtime where
  "exampleRuntime =
     \<lparr>parsesURL = parsesExample, nowAtFilename = 40000, nowAtRecordingId = 1000,
      nowAtScan = 60000\<rparr>"

definition engineOK :: engine where
  "engineOK =
     \<lparr>launch = Returns (), newContext = Returns (), newPage = Returns (),
      setViewportSize = Returns (), goto = Returns (), settle = Returns (),
      screenshot = Returns [137, 80, 78, 71], recording = Returns (),
      contextClose = Returns (), contextCloseAgain = Returns ()\<rparr>"

definition plainFile :: "string \<Rightarrow> int \<Rightarrow> tempFile" where
  "plainFile n t =
     \<lparr>name = n, mtime = t, content = [26, 69, 223, 163], statError = None, readError = None,
      unlinkError = None\<rparr>"


definition subdirectory :: "string \<Rightarrow> int \<Rightarrow> tempFile" where
  "subdirectory n t =
     (plainFile n t)
       \<lparr>readError := Some ''EISDIR: illegal operation on a directory, read'',
        unlinkError := Some ''EISDIR: illegal operation on a directory, unlink''\<rparr>"

definition vanished :: "string \<Rightarrow> int \<Rightarrow> tempFile" where
  "vanished n t =
     (plainFile n t)
       \<lparr>statError := Some ''ENOENT: no such file or directory, stat'',
        readError := Some ''ENOENT: no such file or directory, open'',
        unlinkError := Some ''ENOENT: no such file or directory, unlink''\<rparr>"

definition exampleQuery :: "string \<Rightarrow> query" where
  "exampleQuery tag = \<lparr>url = Some ''https://example.com'', device = Some tag, duration = None\<rparr>"

definition exampleWorld :: world where
  "exampleWorld =
     \<lparr>running = 3,
      temp = \<lparr>entries = [plainFile ''page.webm'' 58000], readdirError = None\<rparr>\<rparr>"

section \<open>Shared facts\<close>

lemmas handler_defs =
  tryCatchFinally_def engineCall_def launchBrowser_def onlyIf_def closeIfLaunched_def
  closeBrowser_def sendJson_def respond_def setHeader_def send_def status_def enter_def
  newResponse_def Let_def

lemmas screenshot_defs =
  api_screenshot_def screenshot_try_def screenshot_catch_def takeScreenshot_def imageHeaders_def

lemmas screenrecord_defs =
  api_screenrecord_def screenrecord_try_def screenrecord_catch_def newRecordingContext_def

lemmas example_defs =
  exampleRuntime_def engineOK_def exampleQuery_def exampleWorld_def parsesExample_def
  validateInput_def falsy_def validDevices_def deviceParam_def

lemma find_by_name:
  "distinct (map name fs) \<Longrightarrow> f \<in> set fs \<Longrightarrow> find (\<lambda>g. name g = name f) fs = Some f"
  by (induction fs) (auto simp: image_iff)

lemma lookupFile_member:
  "uniqueNames d \<Longrightarrow> f \<in> set (entries d) \<Longrightarrow> lookupFile d (name f) = Some f"
  by (simp add: uniqueNames_def lookupFile_def find_by_name)

lemma lookupFile_Some:
  "lookupFile d n = Some f \<Longrightarrow> f \<in> set (entries d) \<and> name f = n"
  unfolding lookupFile_def by (auto simp: find_Some_iff)

lemma filter_name_neq:
  "distinct (map name fs) \<Longrightarrow> f \<in> set fs \<Longrightarrow>
     filter (\<lambda>g. name g \<noteq> name f) fs = filter (\<lambda>g. g \<noteq> f) fs"
  by (rule filter_cong) (auto simp: distinct_map inj_on_def)

lemma screenrecord_try_returned:
  assumes "launch e = Returns ()" "newContext e = Returns ()" "newPage e = Returns ()"
    "dev \<noteq> ''full'' \<longrightarrow> setViewportSize e = Returns ()" "goto e = Returns ()"
    "settle e = Returns ()" "recording e = Returns ()" "contextClose e = Returns ()"
  shows "screenrecord_try rt e a dev dur rid (enter w) =
     correlate rt dev rid
       ((enter w)\<lparr>calls :=
           [Launch,
            NewContext (if dev \<noteq> ''full'' then deviceProfile dev
                        else Some (Viewport \<lparr>width = 1920, height = 1080\<rparr>)),
            NewPage]
           @ (if dev \<noteq> ''full'' then [SetViewportSize (deviceProfile dev)] else [])
           @ [Goto a, WaitForTimeout 3000, WaitForTimeout (recordDuration dur * 1000),
              CloseContext, SetTimeout 2000],
         browser := True, ctx := True, running := Suc (running w)\<rparr>)"
  using assms
  by (cases "correlate rt dev rid
       ((enter w)\<lparr>calls :=
           [Launch,
            NewContext (if dev \<noteq> ''full'' then deviceProfile dev
                        else Some (Viewport \<lparr>width = 1920, height = 1080\<rparr>)),
            NewPage]
           @ (if dev \<noteq> ''full'' then [SetViewportSize (deviceProfile dev)] else [])
           @ [Goto a, WaitForTimeout 3000, WaitForTimeout (recordDuration dur * 1000),
              CloseContext, SetTimeout 2000],
         browser := True, ctx := True, running := Suc (running w)\<rparr>)")
     (auto simp: screenrecord_try_def newRecordingContext_def handler_defs
        split: option.splits)

lemma correlate_keeps_locals:
  "calls (fst (correlate rt dev rid s)) = calls s
   \<and> browser (fst (correlate rt dev rid s)) = browser s
   \<and> ctx (fst (correlate rt dev rid s)) = ctx s"
  by (simp add: correlate_def split: outcome.splits)

section \<open>Properties of the duration\<close>

lemma recordDuration_absent: "recordDuration None = 10"
  by code_simp

lemma recordDuration_zero: "recordDuration (Some ''0'') = 10"
  by code_simp

lemma recordDuration_45: "recordDuration (Some ''45'') = 30"
  by code_simp

lemma recordDuration_15: "recordDuration (Some ''15'') = 15"
  by code_simp

lemma recordDuration_minus_5: "recordDuration (Some ''-5'') = - 5"
  by code_simp

lemma recordDuration_NaN: "parseInt d = None \<Longrightarrow> recordDuration (Some d) = 10"
  by (simp add: recordDuration_def durationParam_def orTen_def)

lemma recordDuration_general:
  "recordDuration d \<le> 30
   \<and> (parseInt (durationParam d) = None \<longrightarrow> recordDuration d = 10)
   \<and> (\<forall>n. parseInt (durationParam d) = Some n \<and> 0 \<le> n \<longrightarrow>
          1 \<le> recordDuration d \<and> recordDuration d = (if n = 0 then 10 else min n 30))
   \<and> (\<forall>n. parseInt (durationParam d) = Some n \<and> n < 0 \<longrightarrow> recordDuration d = n)"
  by (auto simp: recordDuration_def orTen_def split: option.splits)

text \<open>
  Claim C2 says that the effective duration lies in \<open>[1, 30]\<close> for every value of the
  parameter. It does not: line 117 bounds the duration from above only, and
  \<^verbatim>\<open>duration=-5\<close> gives \<open>-5\<close>.
\<close>

theorem recordDuration_negative_counterexample:
  "recordDuration (Some ''-5'') = - 5 \<and> \<not> (1 \<le> recordDuration (Some ''-5''))"
  by (simp add: recordDuration_minus_5)

text \<open>
  Claim C2, amended: the effective duration never exceeds 30. When the parameter is
  absent, or \<^verbatim>\<open>parseInt\<close> reads \<^verbatim>\<open>NaN\<close> or a number that is not negative, it lies
  in \<open>[1, 30]\<close>: \<^verbatim>\<open>NaN\<close> and 0 give the default 10, any other such number \<open>n\<close> gives
  \<open>min n 30\<close>. An absent or 0 duration is 10, 45 is capped at 30, 15 is used as it is.
  A negative number, down to the least integer a double holds exactly, is used as it
  is.
\<close>

theorem recordDuration_bounds:
  "recordDuration d \<le> 30
   \<and> (parseInt (durationParam d) = None \<longrightarrow> recordDuration d = 10)
   \<and> (\<forall>n. parseInt (durationParam d) = Some n \<and> 0 \<le> n \<longrightarrow>
          1 \<le> recordDuration d \<and> recordDuration d = (if n = 0 then 10 else min n 30))
   \<and> (\<forall>n. parseInt (durationParam d) = Some n \<and> n < 0 \<and> - (2 ^ 53) \<le> n \<longrightarrow>
          recordDuration d = n)
   \<and> recordDuration None = 10
   \<and> recordDuration (Some ''0'') = 10
   \<and> recordDuration (Some ''45'') = 30
   \<and> recordDuration (Some ''15'') = 15"
  using recordDuration_general [of d] recordDuration_absent recordDuration_zero
    recordDuration_45 recordDuration_15
  by blast

theorem recordDuration_bounds_witness:
  "parseInt (durationParam (Some ''0x1F'')) = Some 31
   \<and> 1 \<le> recordDuration (Some ''0x1F'') \<and> recordDuration (Some ''0x1F'') = 30
   \<and> parseInt (durationParam (Some ''ten'')) = None \<and> recordDuration (Some ''ten'') = 10
   \<and> parseInt (durationParam (Some ''-5'')) = Some (- 5) \<and> recordDuration (Some ''-5'') = - 5"
proof -
  have p: "parseInt (durationParam (Some ''0x1F'')) = Some 31"
    by code_simp
  have n: "parseInt (durationParam (Some ''ten'')) = None"
    by code_simp
  have m: "parseInt (durationParam (Some ''-5'')) = Some (- 5)"
    by code_simp
  from recordDuration_bounds [of "Some ''0x1F''"] p
  have 1: "1 \<le> recordDuration (Some ''0x1F'')
      \<and> recordDuration (Some ''0x1F'') = (if (31::int) = 0 then 10 else min 31 30)"
    by simp
  from recordDuration_bounds [of "Some ''ten''"] n
  have 2: "recordDuration (Some ''ten'') = 10"
    by simp
  from recordDuration_bounds [of "Some ''-5''"] m
  have 3: "recordDuration (Some ''-5'') = - 5"
    by simp
  from p n m 1 2 3 show ?thesis by simp
qed

section \<open>Properties of the validator\<close>

text \<open>
  Claim C5 says that every non-null device tag outside the five known ones is
  rejected. The empty tag is not: the guard \<^verbatim>\<open>device &&\<close> of line 25 lets it pass,
  as it lets an absent tag pass.
\<close>

theorem empty_device_counterexample:
  "validateInput parsesExample (Some ''https://example.com'') (Some '''') = None
   \<and> '''' \<notin> set validDevices"
  by (simp add: validateInput_def falsy_def parsesExample_def validDevices_def)

text \<open>
  Claim C5, amended: \<^verbatim>\<open>validateInput\<close> returns a message for an absent or empty
  address; for any other address that \<^verbatim>\<open>new URL\<close> rejects; and, when the address is
  accepted, for every device tag that is neither absent nor empty and is outside
  \<^verbatim>\<open>phone, tablet, laptop, desktop, full\<close>, with a message that lists these five. It
  returns \<^verbatim>\<open>null\<close> for every accepted address whose device tag is absent, empty or
  one of the five.
\<close>

theorem validateInput_cases:
  "(falsy address \<longrightarrow> validateInput parses address dev = Some ''URL parameter is required'')
   \<and> (\<not> falsy address \<and> \<not> parses (the address) \<longrightarrow>
        validateInput parses address dev = Some ''Invalid URL format'')
   \<and> (\<not> falsy address \<and> parses (the address) \<and> \<not> falsy dev \<and> the dev \<notin> set validDevices \<longrightarrow>
        validateInput parses address dev =
          Some ''Invalid device. Must be one of: phone, tablet, laptop, desktop, full'')
   \<and> (\<not> falsy address \<and> parses (the address) \<and> (falsy dev \<or> the dev \<in> set validDevices) \<longrightarrow>
        validateInput parses address dev = None)"
  by (simp add: validateInput_def validDevices_def)

theorem validateInput_cases_witness:
  "validateInput parsesExample None (Some ''phone'') = Some ''URL parameter is required''
   \<and> validateInput parsesExample (Some ''not-a-url'') None = Some ''Invalid URL format''
   \<and> validateInput parsesExample (Some ''https://example.com'') (Some ''watch'')
       = Some ''Invalid device. Must be one of: phone, tablet, laptop, desktop, full''
   \<and> validateInput parsesExample (Some ''https://example.com'') (Some ''tablet'') = None"
proof -
  have a: "falsy None" "\<not> falsy (Some ''not-a-url'')" "\<not> falsy (Some ''https://example.com'')"
    "\<not> falsy (Some ''watch'')" "\<not> falsy (Some ''tablet'')"
    by (simp_all add: falsy_def)
  have b: "\<not> parsesExample ''not-a-url''" "parsesExample ''https://example.com''"
    by (simp_all add: parsesExample_def)
  have c: "''watch'' \<notin> set validDevices" "''tablet'' \<in> set validDevices"
    by (simp_all add: validDevices_def)
  from validateInput_cases [of None parsesExample "Some ''phone''"] a
  have 1: "validateInput parsesExample None (Some ''phone'') = Some ''URL parameter is required''"
    by simp
  from validateInput_cases [of "Some ''not-a-url''" parsesExample None] a b
  have 2: "validateInput parsesExample (Some ''not-a-url'') None = Some ''Invalid URL format''"
    by simp
  from validateInput_cases [of "Some ''https://example.com''" parsesExample "Some ''watch''"] a b c
  have 3: "validateInput parsesExample (Some ''https://example.com'') (Some ''watch'')
       = Some ''Invalid device. Must be one of: phone, tablet, laptop, desktop, full''"
    by simp
  from validateInput_cases [of "Some ''https://example.com''" parsesExample "Some ''tablet''"] a b c
  have 4: "validateInput parsesExample (Some ''https://example.com'') (Some ''tablet'') = None"
    by simp
  from 1 2 3 4 show ?thesis by simp
qed

section \<open>Properties of the sweep\<close>

lemma sweepEach_append:
  "sweepEach now (xs @ ys) d =
     (case sweepEach now xs d of (d1, None) \<Rightarrow> sweepEach now ys d1 | (d1, Some m) \<Rightarrow> (d1, Some m))"
  by (induction xs arbitrary: d) (auto split: outcome.splits)

lemma sweepEach_no_fault:
  "uniqueNames d \<Longrightarrow> distinct xs \<Longrightarrow> set xs \<subseteq> set (entries d) \<Longrightarrow>
     \<forall>f \<in> set xs. statError f = None \<and> (expired now f \<longrightarrow> unlinkError f = None) \<Longrightarrow>
     sweepEach now (map name xs) d =
       (d\<lparr>entries := filter (\<lambda>f. \<not> (f \<in> set xs \<and> expired now f)) (entries d)\<rparr>, None)"
proof (induction xs arbitrary: d)
  case Nil
  then show ?case by simp
next
  case (Cons x xs)
  have x_in: "x \<in> set (entries d)" using Cons.prems by simp
  have look: "lookupFile d (name x) = Some x"
    using Cons.prems(1) x_in by (rule lookupFile_member)
  have ok: "statError x = None" "expired now x \<longrightarrow> unlinkError x = None"
    using Cons.prems(4) by simp_all
  have rest_ok: "\<forall>f \<in> set xs. statError f = None \<and> (expired now f \<longrightarrow> unlinkError f = None)"
    using Cons.prems(4) by simp
  have dist: "distinct xs" using Cons.prems(2) by simp
  have stat: "statSync d (name x) = Returns (mtime x)"
    by (simp add: statSync_def look ok)
  show ?case
  proof (cases "expired now x")
    case True
    define d' where "d' = d\<lparr>entries := filter (\<lambda>g. g \<noteq> x) (entries d)\<rparr>"
    have unl: "unlinkSync d (name x) = Returns d'"
      using Cons.prems(1) x_in True ok
      by (simp add: unlinkSync_def look d'_def uniqueNames_def filter_name_neq)
    have u': "uniqueNames d'" using Cons.prems(1)
      by (simp add: d'_def uniqueNames_def distinct_map_filter)
    have sub': "set xs \<subseteq> set (entries d')" using Cons.prems(2,3) by (auto simp: d'_def)
    have filt: "filter (\<lambda>f. \<not> (f \<in> set xs \<and> expired now f)) (entries d') =
        filter (\<lambda>f. \<not> (f \<in> set (x # xs) \<and> expired now f)) (entries d)"
      using True by (auto simp: d'_def intro: filter_cong)
    have "sweepEach now (map name (x # xs)) d = sweepEach now (map name xs) d'"
      using True stat unl by (simp add: expired_def)
    also have "\<dots> =
        (d'\<lparr>entries := filter (\<lambda>f. \<not> (f \<in> set xs \<and> expired now f)) (entries d')\<rparr>, None)"
      by (rule Cons.IH [OF u' dist sub' rest_ok])
    also have "\<dots> =
        (d\<lparr>entries := filter (\<lambda>f. \<not> (f \<in> set (x # xs) \<and> expired now f)) (entries d)\<rparr>, None)"
      unfolding filt by (simp add: d'_def)
    finally show ?thesis .
  next
    case False
    have sub: "set xs \<subseteq> set (entries d)" using Cons.prems(3) by simp
    have filt: "filter (\<lambda>f. \<not> (f \<in> set xs \<and> expired now f)) (entries d) =
        filter (\<lambda>f. \<not> (f \<in> set (x # xs) \<and> expired now f)) (entries d)"
      using False by (auto intro: filter_cong)
    have "sweepEach now (map name (x # xs)) d = sweepEach now (map name xs) d"
      using False stat by (simp add: expired_def)
    also have "\<dots> =
        (d\<lparr>entries := filter (\<lambda>f. \<not> (f \<in> set xs \<and> expired now f)) (entries d)\<rparr>, None)"
      by (rule Cons.IH [OF Cons.prems(1) dist sub rest_ok])
    finally show ?thesis unfolding filt .
  qed
qed

lemma sweepEach_fault_free:
  "uniqueNames d \<Longrightarrow> faultFree d \<Longrightarrow> distinct xs \<Longrightarrow> set xs \<subseteq> set (entries d) \<Longrightarrow>
     sweepEach now (map name xs) d =
       (d\<lparr>entries := filter (\<lambda>f. \<not> (f \<in> set xs \<and> expired now f)) (entries d)\<rparr>, None)"
  by (rule sweepEach_no_fault) (auto simp: faultFree_def list_all_iff)

lemma sweepEach_only_expired:
  "sweepEach now ns d = (d', r) \<Longrightarrow> uniqueNames d \<Longrightarrow>
     uniqueNames d' \<and> readdirError d' = readdirError d
     \<and> set (entries d') \<subseteq> set (entries d)
     \<and> (\<forall>f \<in> set (entries d). f \<notin> set (entries d') \<longrightarrow> expired now f \<and> name f \<in> set ns)"
proof (induction ns arbitrary: d)
  case Nil
  then show ?case by auto
next
  case (Cons n ns)
  show ?case
  proof (cases "statSync d n")
    case (Throws m)
    with Cons.prems show ?thesis by auto
  next
    case (Returns t)
    then obtain f0 where f0: "lookupFile d n = Some f0" "t = mtime f0"
      by (auto simp: statSync_def split: option.splits)
    show ?thesis
    proof (cases "now - t > thirtyMinutes")
      case False
      with Returns Cons.prems have "sweepEach now ns d = (d', r)" by simp
      from Cons.IH [OF this Cons.prems(2)] show ?thesis by auto
    next
      case True
      show ?thesis
      proof (cases "unlinkSync d n")
        case (Throws m)
        with True Returns Cons.prems show ?thesis by auto
      next
        case ret: (Returns d1)
        then have d1: "d1 = d\<lparr>entries := filter (\<lambda>g. name g \<noteq> n) (entries d)\<rparr>"
          by (auto simp: unlinkSync_def split: option.splits)
        have u1: "uniqueNames d1" using Cons.prems(2)
          by (simp add: d1 uniqueNames_def distinct_map_filter)
        from True Returns ret Cons.prems have run: "sweepEach now ns d1 = (d', r)" by simp
        note ih = Cons.IH [OF run u1]
        have f0_in: "f0 \<in> set (entries d)" "name f0 = n"
          using lookupFile_Some [OF f0(1)] by auto
        have gone: "\<And>f. f \<in> set (entries d) \<Longrightarrow> f \<notin> set (entries d1) \<Longrightarrow> f = f0"
          using Cons.prems(2) f0_in
          by (auto simp: d1 uniqueNames_def distinct_map inj_on_def)
        have exp0: "expired now f0" using True f0(2) by (simp add: expired_def)
        have sub1: "set (entries d1) \<subseteq> set (entries d)" by (auto simp: d1)
        have rd1: "readdirError d1 = readdirError d" by (simp add: d1)
        have c1: "uniqueNames d'" using ih by blast
        have c2: "readdirError d' = readdirError d" using ih rd1 by simp
        have c3: "set (entries d') \<subseteq> set (entries d)" using ih sub1 by blast
        have c4: "\<forall>f \<in> set (entries d). f \<notin> set (entries d') \<longrightarrow> expired now f \<and> name f \<in> set (n # ns)"
        proof (intro ballI impI)
          fix f assume f: "f \<in> set (entries d)" "f \<notin> set (entries d')"
          show "expired now f \<and> name f \<in> set (n # ns)"
          proof (cases "f \<in> set (entries d1)")
            case True
            with ih f(2) show ?thesis by auto
          next
            case False
            with gone f(1) have "f = f0" by blast
            with exp0 f0_in show ?thesis by simp
          qed
        qed
        from c1 c2 c3 c4 show ?thesis by blast
      qed
    qed
  qed
qed

lemma sweepEach_no_error:
  "sweepEach now (map name xs) d = (d', None) \<Longrightarrow> uniqueNames d \<Longrightarrow> distinct xs \<Longrightarrow>
     set xs \<subseteq> set (entries d) \<Longrightarrow>
     d' = d\<lparr>entries := filter (\<lambda>f. \<not> (f \<in> set xs \<and> expired now f)) (entries d)\<rparr>"
proof (induction xs arbitrary: d)
  case Nil
  then show ?case by simp
next
  case (Cons x xs)
  have x_in: "x \<in> set (entries d)" using Cons.prems by simp
  have look: "lookupFile d (name x) = Some x"
    using Cons.prems(2) x_in by (rule lookupFile_member)
  have run: "sweepEach now (name x # map name xs) d = (d', None)"
    using Cons.prems(1) by simp
  have stat: "statSync d (name x) = Returns (mtime x)"
    using run by (auto simp: statSync_def look split: option.splits outcome.splits)
  show ?case
  proof (cases "expired now x")
    case True
    define d1 where "d1 = d\<lparr>entries := filter (\<lambda>g. g \<noteq> x) (entries d)\<rparr>"
    have gt: "now - mtime x > thirtyMinutes" using True by (simp add: expired_def)
    have unl: "unlinkSync d (name x) = Returns d1"
      using run stat gt Cons.prems(2) x_in
      by (auto simp: unlinkSync_def look d1_def uniqueNames_def filter_name_neq
            split: option.splits outcome.splits)
    have rest: "sweepEach now (map name xs) d1 = (d', None)"
      using run stat gt unl by simp
    have u1: "uniqueNames d1" using Cons.prems(2)
      by (simp add: d1_def uniqueNames_def distinct_map_filter)
    have sub1: "set xs \<subseteq> set (entries d1)" using Cons.prems(3,4) by (auto simp: d1_def)
    have dist: "distinct xs" using Cons.prems(3) by simp
    have filt: "filter (\<lambda>f. \<not> (f \<in> set xs \<and> expired now f)) (entries d1) =
        filter (\<lambda>f. \<not> (f \<in> set (x # xs) \<and> expired now f)) (entries d)"
      using True by (auto simp: d1_def intro: filter_cong)
    have "d' = d1\<lparr>entries := filter (\<lambda>f. \<not> (f \<in> set xs \<and> expired now f)) (entries d1)\<rparr>"
      by (rule Cons.IH [OF rest u1 dist sub1])
    then show ?thesis unfolding filt by (simp add: d1_def)
  next
    case False
    have le: "\<not> now - mtime x > thirtyMinutes" using False by (simp add: expired_def)
    have rest: "sweepEach now (map name xs) d = (d', None)"
      using run stat le by simp
    have filt: "filter (\<lambda>f. \<not> (f \<in> set xs \<and> expired now f)) (entries d) =
        filter (\<lambda>f. \<not> (f \<in> set (x # xs) \<and> expired now f)) (entries d)"
      using False by (auto intro: filter_cong)
    have "d' = d\<lparr>entries := filter (\<lambda>f. \<not> (f \<in> set xs \<and> expired now f)) (entries d)\<rparr>"
      using Cons.IH [OF rest Cons.prems(2)] Cons.prems(3,4) by simp
    then show ?thesis unfolding filt .
  qed
qed

lemma cleanup_no_error:
  assumes "uniqueNames d" "\<not> sweepThrows now d"
  shows "cleanupTempFiles now d = d\<lparr>entries := filter (\<lambda>f. \<not> expired now f) (entries d)\<rparr>"
proof -
  have dist: "distinct (entries d)" using assms(1) by (simp add: uniqueNames_def distinct_map)
  have rd: "readdirSync d = Returns (map name (entries d))"
    using assms(2) by (auto simp: sweepThrows_def readdirSync_def split: option.splits)
  obtain d' where run: "sweepEach now (map name (entries d)) d = (d', None)"
    using assms(2) rd by (cases "sweepEach now (map name (entries d)) d") (simp add: sweepThrows_def)
  have "filter (\<lambda>f. \<not> (f \<in> set (entries d) \<and> expired now f)) (entries d) =
      filter (\<lambda>f. \<not> expired now f) (entries d)"
    by (auto intro: filter_cong)
  with sweepEach_no_error [OF run assms(1) dist subset_refl]
  have "d' = d\<lparr>entries := filter (\<lambda>f. \<not> expired now f) (entries d)\<rparr>" by simp
  then show ?thesis using rd run by (simp add: cleanupTempFiles_def)
qed

lemma fault_free_sweep:
  assumes "uniqueNames d" "faultFree d"
  shows "\<not> sweepThrows now d"
proof -
  have dist: "distinct (entries d)" using assms(1) by (simp add: uniqueNames_def distinct_map)
  have "readdirSync d = Returns (map name (entries d))"
    using assms(2) by (simp add: readdirSync_def faultFree_def)
  then show ?thesis
    using sweepEach_fault_free [OF assms dist subset_refl, of now]
    by (simp add: sweepThrows_def)
qed

text \<open>
  Claim C3 says that an error on one file does not keep the sweep from examining and
  deleting the remaining files. It does: the \<^verbatim>\<open>try\<close> of line 42 encloses the whole
  loop, so the first error ends the sweep. With an entry whose \<^verbatim>\<open>statSync\<close> throws
  listed first, a file 31 minutes old listed after it stays, though the sweep of the
  directory without that entry deletes it.
\<close>

theorem stuck_file_halts_sweep_counterexample:
  "cleanupTempFiles 1860000
     \<lparr>entries = [vanished ''a.tmp'' 0, plainFile ''old.webm'' 0], readdirError = None\<rparr>
   = \<lparr>entries = [vanished ''a.tmp'' 0, plainFile ''old.webm'' 0], readdirError = None\<rparr>
   \<and> cleanupTempFiles 1860000 \<lparr>entries = [plainFile ''old.webm'' 0], readdirError = None\<rparr>
       = \<lparr>entries = [], readdirError = None\<rparr>"
  by code_simp

text \<open>
  Claim C3, amended: an error thrown while reading or removing a file is swallowed,
  the sweep returns, and it ends there. Of the files listed before the failing one,
  those more than 30 minutes old have been deleted and the others kept; the failing
  file and every file listed after it are left in the directory, unexamined in that
  sweep. The failing file is the first one whose \<^verbatim>\<open>statSync\<close> throws or which is
  more than 30 minutes old and whose \<^verbatim>\<open>unlinkSync\<close> throws.
\<close>

theorem sweep_ends_at_first_error:
  assumes "uniqueNames d" and "readdirError d = None"
    and "entries d = before @ x # after"
    and "\<forall>f \<in> set before. statError f = None \<and> (expired now f \<longrightarrow> unlinkError f = None)"
    and "statError x \<noteq> None \<or> (expired now x \<and> unlinkError x \<noteq> None)"
  shows "cleanupTempFiles now d
       = d\<lparr>entries := filter (\<lambda>f. \<not> now - mtime f > thirtyMinutes) before @ x # after\<rparr>"
proof -
  have "distinct (entries d)"
    using assms(1) by (simp add: uniqueNames_def distinct_map)
  then have dist: "distinct (before @ x # after)"
    unfolding assms(3) .
  then have db: "distinct before" and out: "\<forall>f \<in> set (x # after). f \<notin> set before"
    by auto
  have sub: "set before \<subseteq> set (entries d)" unfolding assms(3) by auto
  define d1 where "d1 = d\<lparr>entries := filter (\<lambda>f. \<not> expired now f) before @ x # after\<rparr>"
  have "filter (\<lambda>f. \<not> (f \<in> set before \<and> expired now f)) before
      = filter (\<lambda>f. \<not> expired now f) before"
    by (auto intro: filter_cong)
  moreover have "filter (\<lambda>f. \<not> (f \<in> set before \<and> expired now f)) (x # after) = x # after"
    using out by (simp add: filter_id_conv)
  ultimately have filt: "filter (\<lambda>f. \<not> (f \<in> set before \<and> expired now f)) (entries d)
      = filter (\<lambda>f. \<not> expired now f) before @ x # after"
    unfolding assms(3) filter_append by simp
  have first: "sweepEach now (map name before) d = (d1, None)"
    using sweepEach_no_fault [OF assms(1) db sub assms(4)] unfolding filt d1_def .
  have "distinct (map name (filter (\<lambda>f. \<not> (f \<in> set before \<and> expired now f)) (entries d)))"
    using assms(1) unfolding uniqueNames_def by (rule distinct_map_filter)
  then have u1: "uniqueNames d1"
    unfolding filt by (simp add: d1_def uniqueNames_def)
  have "x \<in> set (entries d1)" by (simp add: d1_def)
  with u1 have look: "lookupFile d1 (name x) = Some x" by (rule lookupFile_member)
  have "\<exists>m. sweepEach now (name x # map name after) d1 = (d1, Some m)"
    using assms(5)
    by (auto simp: statSync_def unlinkSync_def look expired_def split: option.splits)
  then obtain m where "sweepEach now (name x # map name after) d1 = (d1, Some m)" ..
  then have "sweepEach now (map name (entries d)) d = (d1, Some m)"
    using first unfolding assms(3) by (simp add: sweepEach_append)
  moreover have "readdirSync d = Returns (map name (entries d))"
    using assms(2) by (simp add: readdirSync_def)
  ultimately have "cleanupTempFiles now d = d1" by (simp add: cleanupTempFiles_def)
  then show ?thesis by (simp add: d1_def expired_def [abs_def])
qed

theorem sweep_ends_at_first_error_witness:
  "cleanupTempFiles 1860000
     \<lparr>entries = [plainFile ''a.webm'' 0, plainFile ''b.webm'' 1560000,
                 subdirectory ''c-subdir'' 0, plainFile ''old.webm'' 0],
      readdirError = None\<rparr>
   = \<lparr>entries = [plainFile ''b.webm'' 1560000, subdirectory ''c-subdir'' 0,
                 plainFile ''old.webm'' 0],
      readdirError = None\<rparr>"
proof -
  let ?d = "\<lparr>entries = [plainFile ''a.webm'' 0, plainFile ''b.webm'' 1560000,
                 subdirectory ''c-subdir'' 0, plainFile ''old.webm'' 0],
      readdirError = None\<rparr>"
  have h1: "uniqueNames ?d"
    by code_simp
  have h2: "readdirError ?d = None"
    by simp
  have h3: "entries ?d = [plainFile ''a.webm'' 0, plainFile ''b.webm'' 1560000]
      @ subdirectory ''c-subdir'' 0 # [plainFile ''old.webm'' 0]"
    by simp
  have h4: "\<forall>f \<in> set [plainFile ''a.webm'' 0, plainFile ''b.webm'' 1560000].
      statError f = None \<and> (expired 1860000 f \<longrightarrow> unlinkError f = None)"
    by (simp add: plainFile_def)
  have h5: "statError (subdirectory ''c-subdir'' 0) \<noteq> None
      \<or> (expired 1860000 (subdirectory ''c-subdir'' 0)
          \<and> unlinkError (subdirectory ''c-subdir'' 0) \<noteq> None)"
    by (simp add: subdirectory_def plainFile_def expired_def thirtyMinutes_def)
  have "cleanupTempFiles 1860000 ?d
      = ?d\<lparr>entries := filter (\<lambda>f. \<not> 1860000 - mtime f > thirtyMinutes)
            [plainFile ''a.webm'' 0, plainFile ''b.webm'' 1560000]
          @ subdirectory ''c-subdir'' 0 # [plainFile ''old.webm'' 0]\<rparr>"
    by (rule sweep_ends_at_first_error [OF h1 h2 h3 h4 h5])
  also have "\<dots> = \<lparr>entries = [plainFile ''b.webm'' 1560000, subdirectory ''c-subdir'' 0,
                 plainFile ''old.webm'' 0], readdirError = None\<rparr>"
    by (simp add: plainFile_def thirtyMinutes_def)
  finally show ?thesis .
qed

text \<open>
  Claim C7 says that each sweep deletes a file if and only if it is more than 30
  minutes old. A sweep that an error ends leaves older files behind: here the first
  entry cannot be unlinked, as a subdirectory cannot, and the second, 31 minutes old,
  is not deleted.
\<close>

theorem expired_file_kept_counterexample:
  "cleanupTempFiles 1860000
     \<lparr>entries = [subdirectory ''a-subdir'' 0, plainFile ''old.webm'' 0], readdirError = None\<rparr>
   = \<lparr>entries = [subdirectory ''a-subdir'' 0, plainFile ''old.webm'' 0], readdirError = None\<rparr>
   \<and> 1860000 - mtime (plainFile ''old.webm'' 0) > thirtyMinutes"
  by code_simp

text \<open>
  Claim C7, amended: the retention window is 30 minutes, 1800000 milliseconds. On a
  sweep in which no call throws, a file is deleted if and only if its modification
  time is more than 30 minutes before the start of the sweep: a file 31 minutes old
  is deleted, a file 5 minutes old or exactly 30 minutes old is retained. No call
  throws on a fault-free directory. On every sweep, whatever throws, only files more
  than 30 minutes old are deleted and no file is added.
\<close>

theorem sweep_deletes_expired:
  assumes "uniqueNames d"
  shows "thirtyMinutes = 1800000
       \<and> (\<not> sweepThrows now d \<longrightarrow>
            cleanupTempFiles now d
              = d\<lparr>entries := filter (\<lambda>f. \<not> now - mtime f > thirtyMinutes) (entries d)\<rparr>)
       \<and> (faultFree d \<longrightarrow> \<not> sweepThrows now d)
       \<and> set (entries (cleanupTempFiles now d)) \<subseteq> set (entries d)
       \<and> (\<forall>f \<in> set (entries d).
             f \<notin> set (entries (cleanupTempFiles now d)) \<longrightarrow> now - mtime f > thirtyMinutes)"
proof -
  have a: "thirtyMinutes = 1800000"
    by (simp add: thirtyMinutes_def)
  have b: "\<not> sweepThrows now d \<longrightarrow>
      cleanupTempFiles now d
        = d\<lparr>entries := filter (\<lambda>f. \<not> now - mtime f > thirtyMinutes) (entries d)\<rparr>"
    using cleanup_no_error [OF assms, of now] by (simp add: expired_def)
  have b': "faultFree d \<longrightarrow> \<not> sweepThrows now d"
    using fault_free_sweep [OF assms] by blast
  have c: "set (entries (cleanupTempFiles now d)) \<subseteq> set (entries d)
      \<and> (\<forall>f \<in> set (entries d).
            f \<notin> set (entries (cleanupTempFiles now d)) \<longrightarrow> now - mtime f > thirtyMinutes)"
  proof (cases "readdirSync d")
    case (Throws m)
    then show ?thesis by (simp add: cleanupTempFiles_def)
  next
    case (Returns ns)
    obtain d' r where run: "sweepEach now ns d = (d', r)"
      by (cases "sweepEach now ns d")
    have "cleanupTempFiles now d = d'"
      using Returns run by (simp add: cleanupTempFiles_def)
    with sweepEach_only_expired [OF run assms] show ?thesis
      by (auto simp: expired_def)
  qed
  from a b b' c show ?thesis by blast
qed

theorem sweep_deletes_expired_witness:
  "cleanupTempFiles 1860000
     \<lparr>entries = [plainFile ''edge.webm'' 60000, plainFile ''new.webm'' 1560000,
                 plainFile ''old.webm'' 0],
      readdirError = None\<rparr>
   = \<lparr>entries = [plainFile ''edge.webm'' 60000, plainFile ''new.webm'' 1560000],
      readdirError = None\<rparr>"
proof -
  let ?d = "\<lparr>entries = [plainFile ''edge.webm'' 60000, plainFile ''new.webm'' 1560000,
                 plainFile ''old.webm'' 0], readdirError = None\<rparr>"
  have h1: "uniqueNames ?d"
    by code_simp
  have h2: "faultFree ?d"
    by code_simp
  have "cleanupTempFiles 1860000 ?d
      = ?d\<lparr>entries := filter (\<lambda>f. \<not> 1860000 - mtime f > thirtyMinutes) (entries ?d)\<rparr>"
    using sweep_deletes_expired [OF h1, of 1860000] h2 by blast
  also have "\<dots> = \<lparr>entries = [plainFile ''edge.webm'' 60000, plainFile ''new.webm'' 1560000],
      readdirError = None\<rparr>"
    by code_simp
  finally show ?thesis .
qed

section \<open>The browser process of a request\<close>

lemma keepsBrowserI:
  fixes f :: step
  shows "(\<And>s. running (fst (f s)) = running s \<and> browser (fst (f s)) = browser s
          \<and> closes (fst (f s)) = closes s) \<Longrightarrow> keepsBrowser f"
  by (simp add: keepsBrowser_def)

lemma keepsBrowserD:
  "keepsBrowser f \<Longrightarrow>
     running (fst (f s)) = running s \<and> browser (fst (f s)) = browser s \<and> closes (fst (f s)) = closes s"
  by (simp add: keepsBrowser_def)

lemma keeps_engineCall: "c \<noteq> CloseBrowser \<Longrightarrow> keepsBrowser (engineCall c r)"
  by (simp add: keepsBrowser_def engineCall_def closes_def)

lemma keeps_onlyIf: "keepsBrowser f \<Longrightarrow> keepsBrowser (onlyIf b f)"
  by (simp add: keepsBrowser_def onlyIf_def)

lemma keeps_sendJson: "keepsBrowser (sendJson n obj)"
  by (simp add: keepsBrowser_def sendJson_def closes_def Let_def split: outcome.splits)

lemma keeps_takeScreenshot: "keepsBrowser (takeScreenshot rt e dev)"
  by (simp add: keepsBrowser_def takeScreenshot_def closes_def Let_def split: outcome.splits)

lemma keeps_newRecordingContext: "keepsBrowser (newRecordingContext e dev)"
  by (simp add: keepsBrowser_def newRecordingContext_def closes_def Let_def split: outcome.splits)

lemma keeps_correlate: "keepsBrowser (correlate rt dev rid)"
  by (simp add: keepsBrowser_def correlate_def closes_def split: outcome.splits)

lemma keeps_statements: "\<forall>f \<in> set fs. keepsBrowser f \<Longrightarrow> keepsBrowser (statements fs)"
proof (induction fs)
  case Nil
  show ?case by (simp add: keepsBrowser_def)
next
  case (Cons f fs)
  have kf: "keepsBrowser f" and kfs: "keepsBrowser (statements fs)"
    using Cons by simp_all
  show ?case
  proof (rule keepsBrowserI)
    fix s
    obtain s' r where fs': "f s = (s', r)" by (cases "f s")
    have a: "running s' = running s \<and> browser s' = browser s \<and> closes s' = closes s"
      using keepsBrowserD [OF kf, of s] fs' by simp
    show "running (fst (statements (f # fs) s)) = running s \<and>
          browser (fst (statements (f # fs) s)) = browser s \<and>
          closes (fst (statements (f # fs) s)) = closes s"
    proof (cases r)
      case None
      with fs' a keepsBrowserD [OF kfs, of s'] show ?thesis by simp
    next
      case (Some m)
      with fs' a show ?thesis by simp
    qed
  qed
qed

lemma statements_after_launch:
  assumes rest: "keepsBrowser (statements fs)" and fresh: "\<not> browser s"
  shows "(case launch e of
            Returns u \<Rightarrow> browser (fst (statements (launchBrowser e # fs) s))
                        \<and> running (fst (statements (launchBrowser e # fs) s)) = Suc (running s)
          | Throws m \<Rightarrow> \<not> browser (fst (statements (launchBrowser e # fs) s))
                        \<and> running (fst (statements (launchBrowser e # fs) s)) = running s)
         \<and> closes (fst (statements (launchBrowser e # fs) s)) = closes s"
proof (cases "launch e")
  case (Throws m)
  with fresh show ?thesis by (simp add: launchBrowser_def closes_def)
next
  case (Returns u)
  define s1 where "s1 = s\<lparr>calls := calls s @ [Launch], browser := True, running := Suc (running s)\<rparr>"
  have "statements (launchBrowser e # fs) s = statements fs s1"
    using Returns by (simp add: launchBrowser_def s1_def)
  moreover have "running (fst (statements fs s1)) = running s1 \<and> browser (fst (statements fs s1)) = browser s1
          \<and> closes (fst (statements fs s1)) = closes s1"
    by (rule keepsBrowserD [OF rest])
  ultimately show ?thesis using Returns by (simp add: s1_def closes_def)
qed

lemma finally_closes:
  assumes body: "(case launch e of
            Returns u \<Rightarrow> browser (fst (block s)) \<and> running (fst (block s)) = Suc (running s)
          | Throws m \<Rightarrow> \<not> browser (fst (block s)) \<and> running (fst (block s)) = running s)
         \<and> closes (fst (block s)) = closes s"
    and handler: "\<And>m. keepsBrowser (handler m)"
  shows "running (fst (tryCatchFinally block handler closeIfLaunched s)) = running s
       \<and> closes (fst (tryCatchFinally block handler closeIfLaunched s)) =
           closes s + (case launch e of Returns u \<Rightarrow> 1 | Throws m \<Rightarrow> 0)
       \<and> (case launch e of
            Returns u \<Rightarrow> last (calls (fst (tryCatchFinally block handler closeIfLaunched s))) = CloseBrowser
          | Throws m \<Rightarrow> True)"
proof -
  obtain s1 r1 where b: "block s = (s1, r1)" by (cases "block s")
  define s2 where "s2 = (case r1 of None \<Rightarrow> s1 | Some m \<Rightarrow> fst (handler m s1))"
  have fin: "fst (tryCatchFinally block handler closeIfLaunched s) = closeIfLaunched s2"
    by (simp add: tryCatchFinally_def b s2_def split: option.splits prod.splits)
  have keep: "running s2 = running s1 \<and> browser s2 = browser s1 \<and> closes s2 = closes s1"
  proof (cases r1)
    case None
    then show ?thesis by (simp add: s2_def)
  next
    case (Some m)
    then show ?thesis using keepsBrowserD [OF handler, of m s1] by (simp add: s2_def)
  qed
  show ?thesis
  proof (cases "launch e")
    case (Returns u)
    with body b keep have "browser s2" "running s2 = Suc (running s)" "closes s2 = closes s"
      by simp_all
    then show ?thesis unfolding fin using Returns
      by (simp add: closeIfLaunched_def closeBrowser_def closes_def)
  next
    case (Throws m)
    with body b keep have "\<not> browser s2" "running s2 = running s" "closes s2 = closes s"
      by simp_all
    then show ?thesis unfolding fin using Throws
      by (simp add: closeIfLaunched_def)
  qed
qed

lemma screenshot_rest_keeps:
  "keepsBrowser (statements
       [engineCall NewPage (newPage e),
        onlyIf (dev \<noteq> ''full'') (engineCall (SetViewportSize (deviceProfile dev)) (setViewportSize e)),
        engineCall (Goto address) (goto e),
        engineCall (WaitForTimeout 2000) (settle e),
        takeScreenshot rt e dev])"
  by (rule keeps_statements) (simp add: keeps_engineCall keeps_onlyIf keeps_takeScreenshot)

lemma screenrecord_rest_keeps:
  "keepsBrowser (statements
       [newRecordingContext e dev,
        engineCall NewPage (newPage e),
        onlyIf (dev \<noteq> ''full'') (engineCall (SetViewportSize (deviceProfile dev)) (setViewportSize e)),
        engineCall (Goto address) (goto e),
        engineCall (WaitForTimeout 3000) (settle e),
        engineCall (WaitForTimeout (recordDuration dur * 1000)) (recording e),
        engineCall CloseContext (contextClose e),
        engineCall (SetTimeout 2000) (Returns ()),
        correlate rt dev rid])"
  by (rule keeps_statements)
     (simp add: keeps_engineCall keeps_onlyIf keeps_newRecordingContext keeps_correlate)

lemma keeps_screenshot_catch: "keepsBrowser (screenshot_catch m)"
  by (simp add: screenshot_catch_def keeps_sendJson)

lemma keeps_screenrecord_catch: "keepsBrowser (screenrecord_catch e m)"
proof (rule keepsBrowserI)
  fix s :: state
  have "keepsBrowser (statements
       [onlyIf (ctx s) (engineCall CloseContext (contextCloseAgain e)),
        sendJson 500 (errorBody ''Error creating screen recording'' m)])"
    by (rule keeps_statements) (simp add: keeps_engineCall keeps_onlyIf keeps_sendJson)
  then show "running (fst (screenrecord_catch e m s)) = running s \<and>
         browser (fst (screenrecord_catch e m s)) = browser s \<and>
         closes (fst (screenrecord_catch e m s)) = closes s"
    unfolding screenrecord_catch_def by (rule keepsBrowserD)
qed

lemma enter_fresh: "\<not> browser (enter w)" "running (enter w) = running w" "closes (enter w) = 0"
  by (simp_all add: enter_def closes_def)

text \<open>
  Claim C1: for every request that gets past validation, and whatever each call of
  the engine and of the file system does (return, throw, time out), the browser that
  the request launched is closed when the handler is done. The number of running
  browser processes is back at its value before the request;
  \<^verbatim>\<open>browser.close()\<close> has been called once when the launch returned, as the
  handler's last call, and not at all when the launch threw, since then there is no
  browser.
\<close>

theorem browser_closed_on_every_path:
  assumes valid: "validateInput (parsesURL rt) (url q) (Some (deviceParam (device q))) = None"
  shows "running (fst (api_screenshot rt e q w)) = running w
       \<and> closes (fst (api_screenshot rt e q w)) = (case launch e of Returns u \<Rightarrow> 1 | Throws m \<Rightarrow> 0)
       \<and> (case launch e of
            Returns u \<Rightarrow> last (calls (fst (api_screenshot rt e q w))) = CloseBrowser
          | Throws m \<Rightarrow> True)
       \<and> running (fst (api_screenrecord rt e q w)) = running w
       \<and> closes (fst (api_screenrecord rt e q w)) = (case launch e of Returns u \<Rightarrow> 1 | Throws m \<Rightarrow> 0)
       \<and> (case launch e of
            Returns u \<Rightarrow> last (calls (fst (api_screenrecord rt e q w))) = CloseBrowser
          | Throws m \<Rightarrow> True)"
proof -
  let ?dev = "deviceParam (device q)"
  have shot: "api_screenshot rt e q w =
      tryCatchFinally (screenshot_try rt e (the (url q)) ?dev) screenshot_catch closeIfLaunched (enter w)"
    using valid by (simp add: api_screenshot_def)
  have rec: "api_screenrecord rt e q w =
      tryCatchFinally (screenrecord_try rt e (the (url q)) ?dev (duration q) (toString (nowAtRecordingId rt)))
        (screenrecord_catch e) closeIfLaunched (enter w)"
    using valid by (simp add: api_screenrecord_def)
  have a0: "(case launch e of
            Returns u \<Rightarrow> browser (fst (screenshot_try rt e (the (url q)) ?dev (enter w)))
                        \<and> running (fst (screenshot_try rt e (the (url q)) ?dev (enter w))) = Suc (running (enter w))
          | Throws m \<Rightarrow> \<not> browser (fst (screenshot_try rt e (the (url q)) ?dev (enter w)))
                        \<and> running (fst (screenshot_try rt e (the (url q)) ?dev (enter w))) = running (enter w))
         \<and> closes (fst (screenshot_try rt e (the (url q)) ?dev (enter w))) = closes (enter w)"
    unfolding screenshot_try_def
    by (rule statements_after_launch [OF screenshot_rest_keeps enter_fresh(1)])
  have b0: "(case launch e of
            Returns u \<Rightarrow> browser (fst (screenrecord_try rt e (the (url q)) ?dev (duration q) (toString (nowAtRecordingId rt)) (enter w)))
                        \<and> running (fst (screenrecord_try rt e (the (url q)) ?dev (duration q) (toString (nowAtRecordingId rt)) (enter w))) = Suc (running (enter w))
          | Throws m \<Rightarrow> \<not> browser (fst (screenrecord_try rt e (the (url q)) ?dev (duration q) (toString (nowAtRecordingId rt)) (enter w)))
                        \<and> running (fst (screenrecord_try rt e (the (url q)) ?dev (duration q) (toString (nowAtRecordingId rt)) (enter w))) = running (enter w))
         \<and> closes (fst (screenrecord_try rt e (the (url q)) ?dev (duration q) (toString (nowAtRecordingId rt)) (enter w))) = closes (enter w)"
    unfolding screenrecord_try_def
    by (rule statements_after_launch [OF screenrecord_rest_keeps enter_fresh(1)])
  have a: "running (fst (api_screenshot rt e q w)) = running (enter w)
       \<and> closes (fst (api_screenshot rt e q w)) =
           closes (enter w) + (case launch e of Returns u \<Rightarrow> 1 | Throws m \<Rightarrow> 0)
       \<and> (case launch e of
            Returns u \<Rightarrow> last (calls (fst (api_screenshot rt e q w))) = CloseBrowser
          | Throws m \<Rightarrow> True)"
    unfolding shot by (rule finally_closes [where block = "screenshot_try rt e (the (url q)) ?dev" and s = "enter w"
          and handler = screenshot_catch and e = e, OF a0 keeps_screenshot_catch])
  have b: "running (fst (api_screenrecord rt e q w)) = running (enter w)
       \<and> closes (fst (api_screenrecord rt e q w)) =
           closes (enter w) + (case launch e of Returns u \<Rightarrow> 1 | Throws m \<Rightarrow> 0)
       \<and> (case launch e of
            Returns u \<Rightarrow> last (calls (fst (api_screenrecord rt e q w))) = CloseBrowser
          | Throws m \<Rightarrow> True)"
    unfolding rec by (rule finally_closes [where block = "screenrecord_try rt e (the (url q)) ?dev (duration q) (toString (nowAtRecordingId rt))"
          and s = "enter w" and handler = "screenrecord_catch e" and e = e, OF b0 keeps_screenrecord_catch])
  from a b show ?thesis by (simp add: enter_fresh)
qed

theorem browser_closed_witness:
  "running (fst (api_screenshot exampleRuntime
       (engineOK\<lparr>goto := Throws ''Timeout 30000ms exceeded''\<rparr>) (exampleQuery ''phone'')
       exampleWorld)) = 3
   \<and> closes (fst (api_screenshot exampleRuntime
       (engineOK\<lparr>goto := Throws ''Timeout 30000ms exceeded''\<rparr>) (exampleQuery ''phone'')
       exampleWorld)) = 1
   \<and> last (calls (fst (api_screenrecord exampleRuntime
       (engineOK\<lparr>goto := Throws ''Timeout 30000ms exceeded''\<rparr>) (exampleQuery ''phone'')
       exampleWorld))) = CloseBrowser"
proof -
  have v: "validateInput (parsesURL exampleRuntime) (url (exampleQuery ''phone''))
      (Some (deviceParam (device (exampleQuery ''phone'')))) = None"
    by code_simp
  have l: "launch (engineOK\<lparr>goto := Throws ''Timeout 30000ms exceeded''\<rparr>) = Returns ()"
    by (simp add: engineOK_def)
  have r: "running exampleWorld = 3"
    by (simp add: exampleWorld_def)
  from browser_closed_on_every_path [OF v,
      of "engineOK\<lparr>goto := Throws ''Timeout 30000ms exceeded''\<rparr>" exampleWorld]
  show ?thesis by (simp add: l r)
qed

section \<open>Requests that fail validation\<close>

text \<open>
  Claim C8: when validation fails, either endpoint answers 400 with the validator's
  message, unchanged, as the \<^verbatim>\<open>error\<close> field of the body, and allocates nothing: no
  call is made to the engine, so no browser is launched, the number of running
  browsers and the temporary directory are as before, and the handler returns
  normally. Both endpoints do the same.
\<close>

theorem validation_failure_allocates_nothing:
  assumes "validateInput (parsesURL rt) (url q) (Some (deviceParam (device q))) = Some msg"
  shows "api_screenrecord rt e q w = api_screenshot rt e q w
       \<and> snd (api_screenshot rt e q w) = None
       \<and> sent (res (fst (api_screenshot rt e q w)))
           = Some \<lparr>code = 400, hdrs = [], payload = JsonBody (JObject [(''error'', JString msg)])\<rparr>
       \<and> calls (fst (api_screenshot rt e q w)) = []
       \<and> \<not> browser (fst (api_screenshot rt e q w))
       \<and> running (fst (api_screenshot rt e q w)) = running w
       \<and> temp (fst (api_screenshot rt e q w)) = temp w"
  using assms
  by (simp add: api_screenshot_def api_screenrecord_def handler_defs)

theorem validation_failure_witness:
  "sent (res (fst (api_screenrecord exampleRuntime engineOK
       \<lparr>url = None, device = Some ''phone'', duration = None\<rparr> exampleWorld)))
     = Some \<lparr>code = 400, hdrs = [],
             payload = JsonBody (JObject [(''error'', JString ''URL parameter is required'')])\<rparr>
   \<and> calls (fst (api_screenrecord exampleRuntime engineOK
       \<lparr>url = None, device = Some ''phone'', duration = None\<rparr> exampleWorld)) = []
   \<and> temp (fst (api_screenrecord exampleRuntime engineOK
       \<lparr>url = None, device = Some ''phone'', duration = None\<rparr> exampleWorld)) = temp exampleWorld"
proof -
  have v: "validateInput (parsesURL exampleRuntime)
      (url \<lparr>url = None, device = Some ''phone'', duration = None\<rparr>)
      (Some (deviceParam (device \<lparr>url = None, device = Some ''phone'', duration = None\<rparr>)))
      = Some ''URL parameter is required''"
    by (simp add: example_defs)
  from validation_failure_allocates_nothing [OF v, of engineOK exampleWorld]
  show ?thesis by simp
qed

section \<open>The viewport of a screenshot\<close>

text \<open>
  The calls a request makes, for every behaviour of the engine and of the file
  system: one list for each point at which a call may throw.
\<close>

lemma screenshot_calls_viewport:
  assumes "validateInput (parsesURL rt) (url q) (Some (deviceParam (device q))) = None"
    and "deviceParam (device q) \<noteq> ''full''"
  shows "calls (fst (api_screenshot rt e q w)) \<in>
     {[Launch],
      [Launch, NewPage, CloseBrowser],
      [Launch, NewPage, SetViewportSize (deviceProfile (deviceParam (device q))), CloseBrowser],
      [Launch, NewPage, SetViewportSize (deviceProfile (deviceParam (device q))),
       Goto (the (url q)), CloseBrowser],
      [Launch, NewPage, SetViewportSize (deviceProfile (deviceParam (device q))),
       Goto (the (url q)), WaitForTimeout 2000, CloseBrowser],
      [Launch, NewPage, SetViewportSize (deviceProfile (deviceParam (device q))),
       Goto (the (url q)), WaitForTimeout 2000, Screenshot False, CloseBrowser]}"
proof (cases "launch e")
  case (Throws m)
  then show ?thesis using assms by (simp add: screenshot_defs handler_defs)
next
  case l: (Returns u)
  show ?thesis
  proof (cases "newPage e")
    case (Throws m)
    then show ?thesis using assms l by (simp add: screenshot_defs handler_defs)
  next
    case n: (Returns u)
    show ?thesis
    proof (cases "setViewportSize e")
      case (Throws m)
      then show ?thesis using assms l n by (simp add: screenshot_defs handler_defs)
    next
      case v: (Returns u)
      show ?thesis
      proof (cases "goto e")
        case (Throws m)
        then show ?thesis using assms l n v by (simp add: screenshot_defs handler_defs)
      next
        case g: (Returns u)
        show ?thesis
        proof (cases "settle e")
          case (Throws m)
          then show ?thesis using assms l n v g by (simp add: screenshot_defs handler_defs)
        next
          case s: (Returns u)
          show ?thesis using assms l n v g s
            by (cases "screenshot e") (simp_all add: screenshot_defs handler_defs)
        qed
      qed
    qed
  qed
qed

lemma screenshot_calls_full:
  assumes "validateInput (parsesURL rt) (url q) (Some (deviceParam (device q))) = None"
    and "deviceParam (device q) = ''full''"
  shows "calls (fst (api_screenshot rt e q w)) \<in>
     {[Launch],
      [Launch, NewPage, CloseBrowser],
      [Launch, NewPage, Goto (the (url q)), CloseBrowser],
      [Launch, NewPage, Goto (the (url q)), WaitForTimeout 2000, CloseBrowser],
      [Launch, NewPage, Goto (the (url q)), WaitForTimeout 2000, Screenshot True, CloseBrowser]}"
proof (cases "launch e")
  case (Throws m)
  then show ?thesis using assms by (simp add: screenshot_defs handler_defs)
next
  case l: (Returns u)
  show ?thesis
  proof (cases "newPage e")
    case (Throws m)
    then show ?thesis using assms l by (simp add: screenshot_defs handler_defs)
  next
    case n: (Returns u)
    show ?thesis
    proof (cases "goto e")
      case (Throws m)
      then show ?thesis using assms l n by (simp add: screenshot_defs handler_defs)
    next
      case g: (Returns u)
      show ?thesis
      proof (cases "settle e")
        case (Throws m)
        then show ?thesis using assms l n g by (simp add: screenshot_defs handler_defs)
      next
        case s: (Returns u)
        show ?thesis using assms l n g s
          by (cases "screenshot e") (simp_all add: screenshot_defs handler_defs)
      qed
    qed
  qed
qed

lemma deviceProfile_table:
  "deviceProfile ''phone'' = Some (Viewport \<lparr>width = 375, height = 667\<rparr>)"
  "deviceProfile ''tablet'' = Some (Viewport \<lparr>width = 768, height = 1024\<rparr>)"
  "deviceProfile ''laptop'' = Some (Viewport \<lparr>width = 1366, height = 768\<rparr>)"
  "deviceProfile ''desktop'' = Some (Viewport \<lparr>width = 1920, height = 1080\<rparr>)"
  "deviceProfile ''full'' = Some FullPage"
  by (simp_all add: deviceProfile_def deviceConfigs_def)

lemma recording_calls_returned:
  assumes "validateInput (parsesURL rt) (url q) (Some (deviceParam (device q))) = None"
    and "launch e = Returns ()" "newContext e = Returns ()" "newPage e = Returns ()"
    "deviceParam (device q) \<noteq> ''full'' \<longrightarrow> setViewportSize e = Returns ()"
    "goto e = Returns ()" "settle e = Returns ()" "recording e = Returns ()"
    "contextClose e = Returns ()"
  shows "calls (fst (api_screenrecord rt e q w)) =
      ([Launch,
        NewContext (if deviceParam (device q) \<noteq> ''full'' then deviceProfile (deviceParam (device q))
                    else Some (Viewport \<lparr>width = 1920, height = 1080\<rparr>)),
        NewPage]
       @ (if deviceParam (device q) \<noteq> ''full''
          then [SetViewportSize (deviceProfile (deviceParam (device q)))] else [])
       @ [Goto (the (url q)), WaitForTimeout 3000,
          WaitForTimeout (recordDuration (duration q) * 1000), CloseContext, SetTimeout 2000])
      @ [CloseBrowser]
    \<or> calls (fst (api_screenrecord rt e q w)) =
      ([Launch,
        NewContext (if deviceParam (device q) \<noteq> ''full'' then deviceProfile (deviceParam (device q))
                    else Some (Viewport \<lparr>width = 1920, height = 1080\<rparr>)),
        NewPage]
       @ (if deviceParam (device q) \<noteq> ''full''
          then [SetViewportSize (deviceProfile (deviceParam (device q)))] else [])
       @ [Goto (the (url q)), WaitForTimeout 3000,
          WaitForTimeout (recordDuration (duration q) * 1000), CloseContext, SetTimeout 2000])
      @ [CloseContext, CloseBrowser]"
proof -
  let ?dev = "deviceParam (device q)"
  let ?rid = "toString (nowAtRecordingId rt)"
  let ?cs = "[Launch,
       NewContext (if ?dev \<noteq> ''full'' then deviceProfile ?dev
                   else Some (Viewport \<lparr>width = 1920, height = 1080\<rparr>)),
       NewPage]
      @ (if ?dev \<noteq> ''full'' then [SetViewportSize (deviceProfile ?dev)] else [])
      @ [Goto (the (url q)), WaitForTimeout 3000,
         WaitForTimeout (recordDuration (duration q) * 1000), CloseContext, SetTimeout 2000]"
  let ?s = "(enter w)\<lparr>calls := ?cs, browser := True, ctx := True, running := Suc (running w)\<rparr>"
  have run: "api_screenrecord rt e q w =
      tryCatchFinally (correlate rt ?dev ?rid) (screenrecord_catch e) closeIfLaunched ?s"
  proof -
    have "api_screenrecord rt e q w =
        tryCatchFinally (screenrecord_try rt e (the (url q)) ?dev (duration q) ?rid)
          (screenrecord_catch e) closeIfLaunched (enter w)"
      using assms(1) by (simp add: api_screenrecord_def)
    also have "\<dots> = tryCatchFinally (correlate rt ?dev ?rid) (screenrecord_catch e) closeIfLaunched ?s"
      by (simp only: tryCatchFinally_def screenrecord_try_returned [OF assms(2-9)])
    finally show ?thesis .
  qed
  obtain s' r where c: "correlate rt ?dev ?rid ?s = (s', r)"
    by (cases "correlate rt ?dev ?rid ?s")
  have k: "calls s' = ?cs" "browser s'" "ctx s'"
    using correlate_keeps_locals [of rt ?dev ?rid ?s] c by simp_all
  have "calls (fst (api_screenrecord rt e q w)) = ?cs @ [CloseBrowser]
      \<or> calls (fst (api_screenrecord rt e q w)) = ?cs @ [CloseContext, CloseBrowser]"
  proof (cases r)
    case None
    then show ?thesis unfolding run using c k
      by (simp add: tryCatchFinally_def closeIfLaunched_def closeBrowser_def)
  next
    case (Some m)
    then show ?thesis unfolding run using c k
      by (cases "contextCloseAgain e")
         (simp_all add: screenrecord_catch_def handler_defs)
  qed
  then show ?thesis .
qed

lemma recording_calls_viewport:
  assumes "validateInput (parsesURL rt) (url q) (Some (deviceParam (device q))) = None"
    and "deviceParam (device q) \<noteq> ''full''"
  shows "calls (fst (api_screenrecord rt e q w)) \<in>
     {[Launch],
      [Launch, NewContext (deviceProfile (deviceParam (device q))), CloseBrowser],
      [Launch, NewContext (deviceProfile (deviceParam (device q))), NewPage,
       CloseContext, CloseBrowser],
      [Launch, NewContext (deviceProfile (deviceParam (device q))), NewPage,
       SetViewportSize (deviceProfile (deviceParam (device q))), CloseContext,
       CloseBrowser],
      [Launch, NewContext (deviceProfile (deviceParam (device q))), NewPage,
       SetViewportSize (deviceProfile (deviceParam (device q))), Goto (the (url q)),
       CloseContext, CloseBrowser],
      [Launch, NewContext (deviceProfile (deviceParam (device q))), NewPage,
       SetViewportSize (deviceProfile (deviceParam (device q))), Goto (the (url q)),
       WaitForTimeout 3000, CloseContext, CloseBrowser],
      [Launch, NewContext (deviceProfile (deviceParam (device q))), NewPage,
       SetViewportSize (deviceProfile (deviceParam (device q))), Goto (the (url q)),
       WaitForTimeout 3000, WaitForTimeout (recordDuration (duration q) * 1000),
       CloseContext, CloseBrowser],
      [Launch, NewContext (deviceProfile (deviceParam (device q))), NewPage,
       SetViewportSize (deviceProfile (deviceParam (device q))), Goto (the (url q)),
       WaitForTimeout 3000, WaitForTimeout (recordDuration (duration q) * 1000),
       CloseContext, CloseContext, CloseBrowser],
      [Launch, NewContext (deviceProfile (deviceParam (device q))), NewPage,
       SetViewportSize (deviceProfile (deviceParam (device q))), Goto (the (url q)),
       WaitForTimeout 3000, WaitForTimeout (recordDuration (duration q) * 1000),
       CloseContext, SetTimeout 2000, CloseBrowser],
      [Launch, NewContext (deviceProfile (deviceParam (device q))), NewPage,
       SetViewportSize (deviceProfile (deviceParam (device q))), Goto (the (url q)),
       WaitForTimeout 3000, WaitForTimeout (recordDuration (duration q) * 1000),
       CloseContext, SetTimeout 2000, CloseContext, CloseBrowser]}"
proof (cases "launch e")
  case (Throws m)
  then show ?thesis using assms 
    by (simp add: screenrecord_defs handler_defs split: outcome.splits)
next
  case r0: (Returns u)
  show ?thesis
  proof (cases "newContext e")
    case (Throws m)
    then show ?thesis using assms r0
      by (simp add: screenrecord_defs handler_defs split: outcome.splits)
  next
    case r1: (Returns u)
    show ?thesis
    proof (cases "newPage e")
      case (Throws m)
      then show ?thesis using assms r0 r1
        by (simp add: screenrecord_defs handler_defs split: outcome.splits)
    next
      case r2: (Returns u)
      show ?thesis
      proof (cases "setViewportSize e")
        case (Throws m)
        then show ?thesis using assms r0 r1 r2
          by (simp add: screenrecord_defs handler_defs split: outcome.splits)
      next
        case r3: (Returns u)
        show ?thesis
        proof (cases "goto e")
          case (Throws m)
          then show ?thesis using assms r0 r1 r2 r3
            by (simp add: screenrecord_defs handler_defs split: outcome.splits)
        next
          case r4: (Returns u)
          show ?thesis
          proof (cases "settle e")
            case (Throws m)
            then show ?thesis using assms r0 r1 r2 r3 r4
              by (simp add: screenrecord_defs handler_defs split: outcome.splits)
          next
            case r5: (Returns u)
            show ?thesis
            proof (cases "recording e")
              case (Throws m)
              then show ?thesis using assms r0 r1 r2 r3 r4 r5
                by (simp add: screenrecord_defs handler_defs split: outcome.splits)
            next
              case r6: (Returns u)
              show ?thesis
              proof (cases "contextClose e")
                case (Throws m)
                then show ?thesis using assms r0 r1 r2 r3 r4 r5 r6
                  by (simp add: screenrecord_defs handler_defs split: outcome.splits)
              next
                case r7: (Returns u)
                show ?thesis
                  using assms(2) recording_calls_returned [OF assms(1), of e w] r0 r1 r2 r3 r4 r5 r6 r7 by auto
              qed
            qed
          qed
        qed
      qed
    qed
  qed
qed

lemma recording_calls_full:
  assumes "validateInput (parsesURL rt) (url q) (Some (deviceParam (device q))) = None"
    and "deviceParam (device q) = ''full''"
  shows "calls (fst (api_screenrecord rt e q w)) \<in>
     {[Launch],
      [Launch, NewContext (Some (Viewport \<lparr>width = 1920, height = 1080\<rparr>)),
       CloseBrowser],
      [Launch, NewContext (Some (Viewport \<lparr>width = 1920, height = 1080\<rparr>)),
       NewPage, CloseContext, CloseBrowser],
      [Launch, NewContext (Some (Viewport \<lparr>width = 1920, height = 1080\<rparr>)),
       NewPage, Goto (the (url q)), CloseContext, CloseBrowser],
      [Launch, NewContext (Some (Viewport \<lparr>width = 1920, height = 1080\<rparr>)),
       NewPage, Goto (the (url q)), WaitForTimeout 3000, CloseContext, CloseBrowser],
      [Launch, NewContext (Some (Viewport \<lparr>width = 1920, height = 1080\<rparr>)),
       NewPage, Goto (the (url q)), WaitForTimeout 3000,
       WaitForTimeout (recordDuration (duration q) * 1000), CloseContext, CloseBrowser],
      [Launch, NewContext (Some (Viewport \<lparr>width = 1920, height = 1080\<rparr>)),
       NewPage, Goto (the (url q)), WaitForTimeout 3000,
       WaitForTimeout (recordDuration (duration q) * 1000), CloseContext, CloseContext,
       CloseBrowser],
      [Launch, NewContext (Some (Viewport \<lparr>width = 1920, height = 1080\<rparr>)),
       NewPage, Goto (the (url q)), WaitForTimeout 3000,
       WaitForTimeout (recordDuration (duration q) * 1000), CloseContext,
       SetTimeout 2000, CloseBrowser],
      [Launch, NewContext (Some (Viewport \<lparr>width = 1920, height = 1080\<rparr>)),
       NewPage, Goto (the (url q)), WaitForTimeout 3000,
       WaitForTimeout (recordDuration (duration q) * 1000), CloseContext,
       SetTimeout 2000, CloseContext, CloseBrowser]}"
proof (cases "launch e")
  case (Throws m)
  then show ?thesis using assms 
    by (simp add: screenrecord_defs handler_defs split: outcome.splits)
next
  case r0: (Returns u)
  show ?thesis
  proof (cases "newContext e")
    case (Throws m)
    then show ?thesis using assms r0
      by (simp add: screenrecord_defs handler_defs split: outcome.splits)
  next
    case r1: (Returns u)
    show ?thesis
    proof (cases "newPage e")
      case (Throws m)
      then show ?thesis using assms r0 r1
        by (simp add: screenrecord_defs handler_defs split: outcome.splits)
    next
      case r2: (Returns u)
      show ?thesis
      proof (cases "goto e")
        case (Throws m)
        then show ?thesis using assms r0 r1 r2
          by (simp add: screenrecord_defs handler_defs split: outcome.splits)
      next
        case r3: (Returns u)
        show ?thesis
        proof (cases "settle e")
          case (Throws m)
          then show ?thesis using assms r0 r1 r2 r3
            by (simp add: screenrecord_defs handler_defs split: outcome.splits)
        next
          case r4: (Returns u)
          show ?thesis
          proof (cases "recording e")
            case (Throws m)
            then show ?thesis using assms r0 r1 r2 r3 r4
              by (simp add: screenrecord_defs handler_defs split: outcome.splits)
          next
            case r5: (Returns u)
            show ?thesis
            proof (cases "contextClose e")
              case (Throws m)
              then show ?thesis using assms r0 r1 r2 r3 r4 r5
                by (simp add: screenrecord_defs handler_defs split: outcome.splits)
            next
              case r6: (Returns u)
              show ?thesis
                using assms(2) recording_calls_returned [OF assms(1), of e w] r0 r1 r2 r3 r4 r5 r6 by auto
            qed
          qed
        qed
      qed
    qed
  qed
qed

text \<open>
  Claim C9: the device table maps \<^verbatim>\<open>phone\<close> to 375x667, \<^verbatim>\<open>tablet\<close> to 768x1024,
  \<^verbatim>\<open>laptop\<close> to 1366x768 and \<^verbatim>\<open>desktop\<close> to 1920x1080. For a device other than
  \<^verbatim>\<open>full\<close>, whenever a handler navigates, the call just before the navigation set
  the viewport to the table's entry for the device, and no screenshot is taken with
  full-page capture. For \<^verbatim>\<open>full\<close> no viewport is set and no screenshot is taken
  without full-page capture. An absent device parameter is \<^verbatim>\<open>desktop\<close>. This holds
  whatever the engine's calls do.
\<close>

theorem viewport_follows_device_table:
  assumes "validateInput (parsesURL rt) (url q) (Some (deviceParam (device q))) = None"
  shows "deviceProfile ''phone'' = Some (Viewport \<lparr>width = 375, height = 667\<rparr>)
       \<and> deviceProfile ''tablet'' = Some (Viewport \<lparr>width = 768, height = 1024\<rparr>)
       \<and> deviceProfile ''laptop'' = Some (Viewport \<lparr>width = 1366, height = 768\<rparr>)
       \<and> deviceProfile ''desktop'' = Some (Viewport \<lparr>width = 1920, height = 1080\<rparr>)
       \<and> deviceProfile ''full'' = Some FullPage
       \<and> (deviceParam (device q) \<noteq> ''full''
            \<and> Goto (the (url q)) \<in> set (calls (fst (api_screenshot rt e q w))) \<longrightarrow>
            take 4 (calls (fst (api_screenshot rt e q w)))
              = [Launch, NewPage, SetViewportSize (deviceProfile (deviceParam (device q))),
                 Goto (the (url q))])
       \<and> (deviceParam (device q) \<noteq> ''full''
            \<and> Goto (the (url q)) \<in> set (calls (fst (api_screenrecord rt e q w))) \<longrightarrow>
            take 5 (calls (fst (api_screenrecord rt e q w)))
              = [Launch, NewContext (deviceProfile (deviceParam (device q))), NewPage,
                 SetViewportSize (deviceProfile (deviceParam (device q))), Goto (the (url q))])
       \<and> (deviceParam (device q) \<noteq> ''full'' \<longrightarrow>
            Screenshot True \<notin> set (calls (fst (api_screenshot rt e q w))))
       \<and> (deviceParam (device q) = ''full'' \<longrightarrow>
            (\<forall>p. SetViewportSize p \<notin> set (calls (fst (api_screenshot rt e q w))))
            \<and> (\<forall>p. SetViewportSize p \<notin> set (calls (fst (api_screenrecord rt e q w))))
            \<and> Screenshot False \<notin> set (calls (fst (api_screenshot rt e q w))))
       \<and> (device q = None \<longrightarrow>
            deviceParam (device q) = ''desktop''
            \<and> api_screenshot rt e q w = api_screenshot rt e (q\<lparr>device := Some ''desktop''\<rparr>) w
            \<and> api_screenrecord rt e q w = api_screenrecord rt e (q\<lparr>device := Some ''desktop''\<rparr>) w)"
proof -
  have a: "take 4 (calls (fst (api_screenshot rt e q w)))
              = [Launch, NewPage, SetViewportSize (deviceProfile (deviceParam (device q))),
                 Goto (the (url q))]"
    if "deviceParam (device q) \<noteq> ''full''"
      and "Goto (the (url q)) \<in> set (calls (fst (api_screenshot rt e q w)))"
    using screenshot_calls_viewport [OF assms that(1), of e w] that(2) by auto
  have a': "take 5 (calls (fst (api_screenrecord rt e q w)))
              = [Launch, NewContext (deviceProfile (deviceParam (device q))), NewPage,
                 SetViewportSize (deviceProfile (deviceParam (device q))), Goto (the (url q))]"
    if "deviceParam (device q) \<noteq> ''full''"
      and "Goto (the (url q)) \<in> set (calls (fst (api_screenrecord rt e q w)))"
    using recording_calls_viewport [OF assms that(1), of e w] that(2) by auto
  have b: "Screenshot True \<notin> set (calls (fst (api_screenshot rt e q w)))"
    if "deviceParam (device q) \<noteq> ''full''"
    using screenshot_calls_viewport [OF assms that, of e w] by auto
  have c: "(\<forall>p. SetViewportSize p \<notin> set (calls (fst (api_screenshot rt e q w))))
            \<and> Screenshot False \<notin> set (calls (fst (api_screenshot rt e q w)))"
    if "deviceParam (device q) = ''full''"
    using screenshot_calls_full [OF assms that, of e w] by auto
  have c': "\<forall>p. SetViewportSize p \<notin> set (calls (fst (api_screenrecord rt e q w)))"
    if "deviceParam (device q) = ''full''"
    using recording_calls_full [OF assms that, of e w] by auto
  have d: "deviceParam (device q) = ''desktop''
            \<and> api_screenshot rt e q w = api_screenshot rt e (q\<lparr>device := Some ''desktop''\<rparr>) w
            \<and> api_screenrecord rt e q w = api_screenrecord rt e (q\<lparr>device := Some ''desktop''\<rparr>) w"
    if "device q = None"
    using that
    by (simp add: api_screenshot_def api_screenrecord_def deviceParam_def Let_def
          split: option.splits)
  from a a' b c c' d deviceProfile_table show ?thesis by blast
qed

theorem viewport_follows_device_table_witness:
  "calls (fst (api_screenshot exampleRuntime engineOK (exampleQuery ''phone'') exampleWorld))
     = [Launch, NewPage, SetViewportSize (Some (Viewport \<lparr>width = 375, height = 667\<rparr>)),
        Goto ''https://example.com'', WaitForTimeout 2000, Screenshot False, CloseBrowser]
   \<and> take 4 (calls (fst (api_screenshot exampleRuntime engineOK (exampleQuery ''phone'') exampleWorld)))
     = [Launch, NewPage, SetViewportSize (deviceProfile ''phone''), Goto ''https://example.com'']
   \<and> calls (fst (api_screenshot exampleRuntime engineOK (exampleQuery ''full'') exampleWorld))
     = [Launch, NewPage, Goto ''https://example.com'', WaitForTimeout 2000, Screenshot True,
        CloseBrowser]
   \<and> Screenshot False
       \<notin> set (calls (fst (api_screenshot exampleRuntime engineOK (exampleQuery ''full'') exampleWorld)))
   \<and> api_screenshot exampleRuntime engineOK
         \<lparr>url = Some ''https://example.com'', device = None, duration = None\<rparr> exampleWorld
       = api_screenshot exampleRuntime engineOK (exampleQuery ''desktop'') exampleWorld"
proof -
  let ?q = "\<lparr>url = Some ''https://example.com'', device = None, duration = None\<rparr>"
  have v: "validateInput (parsesURL exampleRuntime) (url (exampleQuery ''phone''))
      (Some (deviceParam (device (exampleQuery ''phone'')))) = None"
    by code_simp
  have v': "validateInput (parsesURL exampleRuntime) (url (exampleQuery ''full''))
      (Some (deviceParam (device (exampleQuery ''full'')))) = None"
    by code_simp
  have v'': "validateInput (parsesURL exampleRuntime) (url ?q) (Some (deviceParam (device ?q))) = None"
    by code_simp
  have p: "deviceParam (device (exampleQuery ''phone'')) = ''phone''"
    "the (url (exampleQuery ''phone'')) = ''https://example.com''"
    "deviceParam (device (exampleQuery ''full'')) = ''full''"
    by (simp_all add: exampleQuery_def deviceParam_def)
  have run: "calls (fst (api_screenshot exampleRuntime engineOK (exampleQuery ''phone'') exampleWorld))
     = [Launch, NewPage, SetViewportSize (Some (Viewport \<lparr>width = 375, height = 667\<rparr>)),
        Goto ''https://example.com'', WaitForTimeout 2000, Screenshot False, CloseBrowser]"
    by (simp add: screenshot_defs handler_defs example_defs deviceProfile_table)
  have full: "calls (fst (api_screenshot exampleRuntime engineOK (exampleQuery ''full'') exampleWorld))
     = [Launch, NewPage, Goto ''https://example.com'', WaitForTimeout 2000, Screenshot True,
        CloseBrowser]"
    by (simp add: screenshot_defs handler_defs example_defs)
  have g: "Goto ''https://example.com''
      \<in> set (calls (fst (api_screenshot exampleRuntime engineOK (exampleQuery ''phone'') exampleWorld)))"
    by (simp add: run)
  from viewport_follows_device_table [OF v, of engineOK exampleWorld] g
  have 1: "take 4 (calls (fst (api_screenshot exampleRuntime engineOK (exampleQuery ''phone'') exampleWorld)))
     = [Launch, NewPage, SetViewportSize (deviceProfile ''phone''), Goto ''https://example.com'']"
    by (simp add: p)
  from viewport_follows_device_table [OF v', of engineOK exampleWorld]
  have 2: "Screenshot False
       \<notin> set (calls (fst (api_screenshot exampleRuntime engineOK (exampleQuery ''full'') exampleWorld)))"
    by (simp add: p)
  from viewport_follows_device_table [OF v'', of engineOK exampleWorld]
  have 3: "api_screenshot exampleRuntime engineOK ?q exampleWorld
       = api_screenshot exampleRuntime engineOK (exampleQuery ''desktop'') exampleWorld"
    by (simp add: exampleQuery_def)
  from run full 1 2 3 show ?thesis by blast
qed

section \<open>The body of a 500 response\<close>

text \<open>
  Claim C4 says that \<^verbatim>\<open>success\<close> is the boolean \<^verbatim>\<open>false\<close> in every 500 body. Lines
  79 and 141 write the string \<^verbatim>\<open>'false'\<close>, while \<^verbatim>\<open>/health\<close> (line 154) writes the
  boolean \<^verbatim>\<open>true\<close> in the same field. The bodies of a screenshot whose navigation
  timed out and of a recording whose browser did not launch: \<^verbatim>\<open>status\<close>,
  \<^verbatim>\<open>error\<close> and \<^verbatim>\<open>message\<close> are as claimed, \<^verbatim>\<open>success\<close> is a string, and there
  is a fifth field \<^verbatim>\<open>creator\<close>.
\<close>

theorem error_body_success_is_a_string:
  "sent (res (fst (api_screenshot exampleRuntime
       (engineOK\<lparr>goto := Throws ''Timeout 30000ms exceeded''\<rparr>) (exampleQuery ''phone'')
       exampleWorld)))
     = Some \<lparr>code = 500, hdrs = [],
             payload = JsonBody (JObject
               [(''status'', JNumber 500), (''success'', JString ''false''),
                (''creator'', JString ''GiftedTech''),
                (''error'', JString ''Error creating screenshot''),
                (''message'', JString ''Timeout 30000ms exceeded'')])\<rparr>
   \<and> sent (res (fst (api_screenrecord exampleRuntime
       (engineOK\<lparr>launch := Throws ''Failed to launch chromium''\<rparr>) (exampleQuery ''phone'')
       exampleWorld)))
     = Some \<lparr>code = 500, hdrs = [],
             payload = JsonBody (JObject
               [(''status'', JNumber 500), (''success'', JString ''false''),
                (''creator'', JString ''GiftedTech''),
                (''error'', JString ''Error creating screen recording''),
                (''message'', JString ''Failed to launch chromium'')])\<rparr>
   \<and> JString ''false'' \<noteq> JBool False"
  by (simp add: screenshot_defs api_screenrecord_def screenrecord_try_def screenrecord_catch_def
        handler_defs example_defs errorBody_def)

section \<open>Artifact Correlator\<close>

lemma findRecent_fault_free:
  "uniqueNames d \<Longrightarrow> faultFree d \<Longrightarrow> set xs \<subseteq> set (entries d) \<Longrightarrow>
     findRecent now d (filter (\<lambda>n. endsWith n ''.webm'') (map name xs))
       = Returns (map_option name (find (recentVideo now) xs))"
proof (induction xs)
  case Nil
  then show ?case by simp
next
  case (Cons x xs)
  have x_in: "x \<in> set (entries d)" using Cons.prems by simp
  have "statError x = None"
    using Cons.prems x_in by (auto simp: faultFree_def list_all_iff)
  then have stat: "statSync d (name x) = Returns (mtime x)"
    using Cons.prems x_in by (simp add: statSync_def lookupFile_member)
  have ih: "findRecent now d (filter (\<lambda>n. endsWith n ''.webm'') (map name xs))
       = Returns (map_option name (find (recentVideo now) xs))"
    using Cons by simp
  show ?case
    using stat ih by (simp add: recentVideo_def [abs_def])
qed

lemma endsWith_nonempty: "endsWith n ''.webm'' \<Longrightarrow> n \<noteq> []"
  by (auto simp: endsWith_def)





lemma fault_free_correlate:
  assumes "uniqueNames d" "faultFree d"
  shows "\<not> correlateThrows now d"
proof -
  have rd: "readdirSync d = Returns (map name (entries d))"
    using assms(2) by (simp add: readdirSync_def faultFree_def)
  have fr: "findRecent now d (filter (\<lambda>n. endsWith n ''.webm'') (map name (entries d)))
       = Returns (map_option name (find (recentVideo now) (entries d)))"
    by (rule findRecent_fault_free [OF assms subset_refl])
  show ?thesis
  proof (cases "find (recentVideo now) (entries d)")
    case None
    then show ?thesis by (simp add: correlateThrows_def rd fr falsy_def)
  next
    case (Some f)
    then have f_in: "f \<in> set (entries d)" and rv: "recentVideo now f"
      by (auto simp: find_Some_iff)
    have look: "lookupFile d (name f) = Some f"
      using assms(1) f_in by (rule lookupFile_member)
    have ok: "readError f = None" "unlinkError f = None"
      using assms(2) f_in by (auto simp: faultFree_def list_all_iff)
    have ne: "\<not> falsy (Some (name f))"
      using rv by (simp add: falsy_def recentVideo_def endsWith_nonempty)
    show ?thesis
      using Some ne by (simp add: correlateThrows_def rd fr readFileSync_def unlinkSync_def look ok)
  qed
qed





section \<open>The default duration of a recording\<close>

lemma statements_keep:
  assumes "\<And>f s. f \<in> set fs \<Longrightarrow> P s \<Longrightarrow> P (fst (f s))" and "P s"
  shows "P (fst (statements fs s))"
  using assms
proof (induction fs arbitrary: s)
  case Nil
  then show ?case by simp
next
  case (Cons f fs)
  obtain s' r where fs': "f s = (s', r)" by (cases "f s")
  have p': "P s'" using Cons.prems(1) [of f s] Cons.prems(2) fs' by simp
  show ?case
  proof (cases r)
    case None
    have "P (fst (statements fs s'))"
      by (rule Cons.IH) (use Cons.prems(1) p' in auto)
    with None fs' show ?thesis by simp
  next
    case (Some m)
    with fs' p' show ?thesis by simp
  qed
qed

lemma tryCatchFinally_keep:
  assumes "P (fst (block s))" and "\<And>m s1. P s1 \<Longrightarrow> P (fst (handler m s1))"
    and "\<And>s1. P s1 \<Longrightarrow> P (finalizer s1)"
  shows "P (fst (tryCatchFinally block handler finalizer s))"
proof -
  obtain s1 r1 where b: "block s = (s1, r1)" by (cases "block s")
  have p1: "P s1" using assms(1) b by simp
  show ?thesis
  proof (cases r1)
    case None
    with b p1 assms(3) show ?thesis by (simp add: tryCatchFinally_def)
  next
    case (Some m)
    obtain s2 r2 where h: "handler m s1 = (s2, r2)" by (cases "handler m s1")
    have "P s2" using assms(2) [OF p1, of m] h by simp
    with Some b h assms(3) show ?thesis by (simp add: tryCatchFinally_def)
  qed
qed

lemma catch_appends:
  "\<exists>cs. calls (fst (screenrecord_catch e m s)) = calls s @ cs"
  by (simp add: screenrecord_catch_def onlyIf_def engineCall_def sendJson_def Let_def
        split: outcome.splits)

lemma statements_append:
  "statements (fs @ gs) s =
     (case statements fs s of (s', None) \<Rightarrow> statements gs s' | (s', Some m) \<Rightarrow> (s', Some m))"
  by (induction fs arbitrary: s) (auto split: prod.splits option.splits)

lemma screenrecord_try_reaches:
  assumes "reachesRecording e dev"
  shows "\<exists>rest. calls (fst (screenrecord_try rt e a dev dur rid (enter w))) =
      [Launch,
       NewContext (if dev \<noteq> ''full'' then deviceProfile dev
                   else Some (Viewport \<lparr>width = 1920, height = 1080\<rparr>)),
       NewPage]
      @ (if dev \<noteq> ''full'' then [SetViewportSize (deviceProfile dev)] else [])
      @ [Goto a, WaitForTimeout 3000, WaitForTimeout (recordDuration dur * 1000)] @ rest"
proof -
  let ?pre = "[Launch,
       NewContext (if dev \<noteq> ''full'' then deviceProfile dev
                   else Some (Viewport \<lparr>width = 1920, height = 1080\<rparr>)),
       NewPage]
      @ (if dev \<noteq> ''full'' then [SetViewportSize (deviceProfile dev)] else [])
      @ [Goto a, WaitForTimeout 3000]"
  let ?wait = "WaitForTimeout (recordDuration dur * 1000)"
  define before where "before = [launchBrowser e, newRecordingContext e dev,
      engineCall NewPage (newPage e),
      onlyIf (dev \<noteq> ''full'') (engineCall (SetViewportSize (deviceProfile dev)) (setViewportSize e)),
      engineCall (Goto a) (goto e), engineCall (WaitForTimeout 3000) (settle e)]"
  define after where "after = [engineCall CloseContext (contextClose e),
      engineCall (SetTimeout 2000) (Returns ()), correlate rt dev rid]"
  define s6 where "s6 = (enter w)\<lparr>calls := ?pre, browser := True, ctx := True,
      running := Suc (running w)\<rparr>"
  define s7 where "s7 = s6\<lparr>calls := calls s6 @ [?wait]\<rparr>"
  have parts: "screenrecord_try rt e a dev dur rid
      = statements (before @ engineCall ?wait (recording e) # after)"
    by (simp add: screenrecord_try_def before_def after_def)
  have pre: "statements before (enter w) = (s6, None)"
    using assms
    by (auto simp: before_def s6_def reachesRecording_def launchBrowser_def
          newRecordingContext_def engineCall_def onlyIf_def Let_def enter_def)
  have run: "screenrecord_try rt e a dev dur rid (enter w) =
      (case recording e of Returns u \<Rightarrow> statements after s7 | Throws m \<Rightarrow> (s7, Some m))"
    unfolding parts
    by (cases "recording e") (simp_all add: statements_append pre engineCall_def s7_def)
  have p7: "\<exists>cs. calls s7 = (?pre @ [?wait]) @ cs" by (simp add: s7_def s6_def)
  have "\<exists>cs. calls (fst (statements after s7)) = (?pre @ [?wait]) @ cs"
  proof (rule statements_keep [where P = "\<lambda>s. \<exists>cs. calls s = (?pre @ [?wait]) @ cs"])
    fix f :: step and s :: state
    assume "f \<in> set after" and "\<exists>cs. calls s = (?pre @ [?wait]) @ cs"
    then show "\<exists>cs. calls (fst (f s)) = (?pre @ [?wait]) @ cs"
      unfolding after_def using correlate_keeps_locals [of rt dev rid s]
      by (auto simp: engineCall_def)
  qed (rule p7)
  with p7 have "\<exists>cs. calls (fst (screenrecord_try rt e a dev dur rid (enter w)))
      = (?pre @ [?wait]) @ cs"
    unfolding run by (cases "recording e") simp_all
  then show ?thesis by simp
qed

lemma recording_reaches_wait:
  assumes "validateInput (parsesURL rt) (url q) (Some (deviceParam (device q))) = None"
    and "reachesRecording e (deviceParam (device q))"
  shows "\<exists>rest. calls (fst (api_screenrecord rt e q w)) =
      [Launch,
       NewContext (if deviceParam (device q) \<noteq> ''full'' then deviceProfile (deviceParam (device q))
                   else Some (Viewport \<lparr>width = 1920, height = 1080\<rparr>)),
       NewPage]
      @ (if deviceParam (device q) \<noteq> ''full''
         then [SetViewportSize (deviceProfile (deviceParam (device q)))] else [])
      @ [Goto (the (url q)), WaitForTimeout 3000,
         WaitForTimeout (recordDuration (duration q) * 1000)] @ rest"
proof -
  let ?dev = "deviceParam (device q)"
  let ?pre = "[Launch,
       NewContext (if ?dev \<noteq> ''full'' then deviceProfile ?dev
                   else Some (Viewport \<lparr>width = 1920, height = 1080\<rparr>)),
       NewPage]
      @ (if ?dev \<noteq> ''full'' then [SetViewportSize (deviceProfile ?dev)] else [])
      @ [Goto (the (url q)), WaitForTimeout 3000,
         WaitForTimeout (recordDuration (duration q) * 1000)]"
  have run: "api_screenrecord rt e q w =
      tryCatchFinally
        (screenrecord_try rt e (the (url q)) ?dev (duration q) (toString (nowAtRecordingId rt)))
        (screenrecord_catch e) closeIfLaunched (enter w)"
    using assms(1) by (simp add: api_screenrecord_def)
  have "\<exists>cs. calls (fst (tryCatchFinally
        (screenrecord_try rt e (the (url q)) ?dev (duration q) (toString (nowAtRecordingId rt)))
        (screenrecord_catch e) closeIfLaunched (enter w))) = ?pre @ cs"
  proof (rule tryCatchFinally_keep [where P = "\<lambda>s. \<exists>cs. calls s = ?pre @ cs"])
    show "\<exists>cs. calls (fst (screenrecord_try rt e (the (url q)) ?dev (duration q)
        (toString (nowAtRecordingId rt)) (enter w))) = ?pre @ cs"
      using screenrecord_try_reaches [OF assms(2)] by simp
  next
    fix m and s1 :: state
    assume "\<exists>cs. calls s1 = ?pre @ cs"
    then show "\<exists>cs. calls (fst (screenrecord_catch e m s1)) = ?pre @ cs"
      using catch_appends [of e m s1] by auto
  next
    fix s1 :: state
    assume "\<exists>cs. calls s1 = ?pre @ cs"
    then show "\<exists>cs. calls (closeIfLaunched s1) = ?pre @ cs"
      by (auto simp: closeIfLaunched_def closeBrowser_def)
  qed
  then show ?thesis unfolding run by simp
qed

lemma respond_code:
  "respond (videoHeaders dev rid) b r = Returns r' \<Longrightarrow>
     statusCode r' = statusCode r \<and> map_option code (sent r') = Some (statusCode r)"
  by (auto simp: respond_def videoHeaders_def setHeader_def send_def
        split: outcome.splits if_splits)

lemma recording_reply_not_400:
  assumes "validateInput (parsesURL rt) (url q) (Some (deviceParam (device q))) = None"
  shows "map_option code (sent (res (fst (api_screenrecord rt e q w)))) \<noteq> Some 400"
proof -
  let ?dev = "deviceParam (device q)"
  let ?rid = "toString (nowAtRecordingId rt)"
  define Q where "Q = (\<lambda>s :: state. statusCode (res s) \<noteq> 400
      \<and> map_option code (sent (res s)) \<noteq> Some 400)"
  have run: "api_screenrecord rt e q w =
      tryCatchFinally (screenrecord_try rt e (the (url q)) ?dev (duration q) ?rid)
        (screenrecord_catch e) closeIfLaunched (enter w)"
    using assms(1) by (simp add: api_screenrecord_def)
  have q0: "Q (enter w)" by (simp add: Q_def enter_def newResponse_def)
  have corr: "Q (fst (correlate rt ?dev ?rid s))" if "Q s" for s
  proof (cases "correlate rt ?dev ?rid s")
    case (Pair s' r)
    have "res s' = res s \<or> (\<exists>b. respond (videoHeaders ?dev ?rid) b (res s) = Returns (res s'))"
      using Pair by (auto simp: correlate_def split: outcome.splits if_splits)
    then show ?thesis using that Pair respond_code [of ?dev ?rid _ "res s" "res s'"]
      by (auto simp: Q_def)
  qed
  have step: "Q (fst (f s))"
    if "f \<in> set [launchBrowser e, newRecordingContext e ?dev, engineCall NewPage (newPage e),
        onlyIf (?dev \<noteq> ''full'') (engineCall (SetViewportSize (deviceProfile ?dev)) (setViewportSize e)),
        engineCall (Goto (the (url q))) (goto e),
        engineCall (WaitForTimeout 3000) (settle e),
        engineCall (WaitForTimeout (recordDuration (duration q) * 1000)) (recording e),
        engineCall CloseContext (contextClose e),
        engineCall (SetTimeout 2000) (Returns ()),
        correlate rt ?dev ?rid]" and "Q s" for f s
    using that corr [of s]
    by (auto simp: Q_def launchBrowser_def newRecordingContext_def engineCall_def onlyIf_def Let_def
          split: outcome.splits if_splits)
  have body: "Q (fst (screenrecord_try rt e (the (url q)) ?dev (duration q) ?rid (enter w)))"
    unfolding screenrecord_try_def
    by (rule statements_keep [where P = Q]) (rule step, assumption+, rule q0)
  have handler: "Q (fst (screenrecord_catch e m s1))" if "Q s1" for m s1
    using that
    by (auto simp: Q_def screenrecord_catch_def onlyIf_def engineCall_def sendJson_def
          status_def send_def Let_def split: outcome.splits if_splits)
  have fin: "Q (closeIfLaunched s1)" if "Q s1" for s1
    using that by (simp add: Q_def closeIfLaunched_def closeBrowser_def)
  have "Q (fst (api_screenrecord rt e q w))"
    unfolding run by (rule tryCatchFinally_keep [where P = Q]) (rule body, erule handler, erule fin)
  then show ?thesis by (simp add: Q_def)
qed

lemma recording_launches:
  assumes "validateInput (parsesURL rt) (url q) (Some (deviceParam (device q))) = None"
  shows "take 1 (calls (fst (api_screenrecord rt e q w))) = [Launch]"
proof (cases "deviceParam (device q) = ''full''")
  case True
  from recording_calls_full [OF assms True, of e w] show ?thesis by auto
next
  case False
  from recording_calls_viewport [OF assms False, of e w] show ?thesis by auto
qed

lemma recording_waits:
  assumes "validateInput (parsesURL rt) (url q) (Some (deviceParam (device q))) = None"
    and "WaitForTimeout t \<in> set (calls (fst (api_screenrecord rt e q w)))"
  shows "t = 3000 \<or> t = recordDuration (duration q) * 1000"
proof (cases "deviceParam (device q) = ''full''")
  case True
  from recording_calls_full [OF assms(1) True, of e w] assms(2) show ?thesis by auto
next
  case False
  from recording_calls_viewport [OF assms(1) False, of e w] assms(2) show ?thesis by auto
qed

text \<open>
  Claim C10: a duration that \<^verbatim>\<open>parseInt\<close> cannot read (its result is \<^verbatim>\<open>NaN\<close>) is not
  a validation failure, and the recording lasts the default 10 seconds. The effective
  duration is 10. When the address and the device are valid, the handler launches the
  browser and the reply, if any, is not the 400 of a validation failure; the only
  waits it makes are the 3000 milliseconds of line 115 and 10000 milliseconds; and
  when every call before line 118 returns, it makes that wait of 10000 milliseconds,
  right after the wait of line 115. In every case the request is handled as the same
  request with no duration parameter.
\<close>

theorem unparsable_duration_is_default:
  assumes "parseInt d = None"
  shows "recordDuration (Some d) = 10
       \<and> (validateInput (parsesURL rt) (url q) (Some (deviceParam (device q))) = None \<longrightarrow>
            take 1 (calls (fst (api_screenrecord rt e (q\<lparr>duration := Some d\<rparr>) w))) = [Launch]
          \<and> map_option code (sent (res (fst (api_screenrecord rt e (q\<lparr>duration := Some d\<rparr>) w))))
              \<noteq> Some 400
          \<and> (\<forall>t. WaitForTimeout t
                   \<in> set (calls (fst (api_screenrecord rt e (q\<lparr>duration := Some d\<rparr>) w))) \<longrightarrow>
                 t = 3000 \<or> t = 10000)
          \<and> (reachesRecording e (deviceParam (device q)) \<longrightarrow>
               (\<exists>rest. calls (fst (api_screenrecord rt e (q\<lparr>duration := Some d\<rparr>) w)) =
                  [Launch,
                   NewContext (if deviceParam (device q) \<noteq> ''full''
                               then deviceProfile (deviceParam (device q))
                               else Some (Viewport \<lparr>width = 1920, height = 1080\<rparr>)),
                   NewPage]
                  @ (if deviceParam (device q) \<noteq> ''full''
                     then [SetViewportSize (deviceProfile (deviceParam (device q)))] else [])
                  @ [Goto (the (url q)), WaitForTimeout 3000, WaitForTimeout 10000] @ rest)))
       \<and> api_screenrecord rt e (q\<lparr>duration := Some d\<rparr>) w
           = api_screenrecord rt e (q\<lparr>duration := None\<rparr>) w"
proof -
  let ?q = "q\<lparr>duration := Some d\<rparr>"
  have ten: "recordDuration (Some d) = 10"
    using assms by (rule recordDuration_NaN)
  have same: "api_screenrecord rt e ?q w = api_screenrecord rt e (q\<lparr>duration := None\<rparr>) w"
    by (simp add: api_screenrecord_def screenrecord_try_def ten recordDuration_absent
          Let_def split: option.splits)
  have passed: "take 1 (calls (fst (api_screenrecord rt e ?q w))) = [Launch]
      \<and> map_option code (sent (res (fst (api_screenrecord rt e ?q w)))) \<noteq> Some 400
      \<and> (\<forall>t. WaitForTimeout t \<in> set (calls (fst (api_screenrecord rt e ?q w))) \<longrightarrow>
             t = 3000 \<or> t = 10000)
      \<and> (reachesRecording e (deviceParam (device q)) \<longrightarrow>
           (\<exists>rest. calls (fst (api_screenrecord rt e ?q w)) =
              [Launch,
               NewContext (if deviceParam (device q) \<noteq> ''full''
                           then deviceProfile (deviceParam (device q))
                           else Some (Viewport \<lparr>width = 1920, height = 1080\<rparr>)),
               NewPage]
              @ (if deviceParam (device q) \<noteq> ''full''
                 then [SetViewportSize (deviceProfile (deviceParam (device q)))] else [])
              @ [Goto (the (url q)), WaitForTimeout 3000, WaitForTimeout 10000] @ rest))"
    if valid: "validateInput (parsesURL rt) (url q) (Some (deviceParam (device q))) = None"
  proof -
    have v: "validateInput (parsesURL rt) (url ?q) (Some (deviceParam (device ?q))) = None"
      using valid by simp
    have a: "take 1 (calls (fst (api_screenrecord rt e ?q w))) = [Launch]"
      by (rule recording_launches [OF v])
    have b: "map_option code (sent (res (fst (api_screenrecord rt e ?q w)))) \<noteq> Some 400"
      by (rule recording_reply_not_400 [OF v])
    have c: "\<forall>t. WaitForTimeout t \<in> set (calls (fst (api_screenrecord rt e ?q w))) \<longrightarrow>
             t = 3000 \<or> t = 10000"
      using recording_waits [OF v, of _ e w] ten by auto
    have d: "\<exists>rest. calls (fst (api_screenrecord rt e ?q w)) =
              [Launch,
               NewContext (if deviceParam (device q) \<noteq> ''full''
                           then deviceProfile (deviceParam (device q))
                           else Some (Viewport \<lparr>width = 1920, height = 1080\<rparr>)),
               NewPage]
              @ (if deviceParam (device q) \<noteq> ''full''
                 then [SetViewportSize (deviceProfile (deviceParam (device q)))] else [])
              @ [Goto (the (url q)), WaitForTimeout 3000, WaitForTimeout 10000] @ rest"
      if "reachesRecording e (deviceParam (device q))"
    proof -
      have "reachesRecording e (deviceParam (device ?q))" using that by simp
      note reached = recording_reaches_wait [OF v this, of w]
      have same_request: "deviceParam (device ?q) = deviceParam (device q)" "url ?q = url q"
        "recordDuration (duration ?q) * 1000 = 10000"
        by (simp_all add: ten)
      show ?thesis using reached unfolding same_request .
    qed
    from a b c d show ?thesis by blast
  qed
  from ten passed same show ?thesis by blast
qed

theorem unparsable_duration_witness:
  "parseInt ''abc'' = None
   \<and> recordDuration (Some ''abc'') = 10
   \<and> take 7 (calls (fst (api_screenrecord exampleRuntime engineOK
           ((exampleQuery ''phone'')\<lparr>duration := Some ''abc''\<rparr>) exampleWorld)))
       = [Launch, NewContext (Some (Viewport \<lparr>width = 375, height = 667\<rparr>)), NewPage,
          SetViewportSize (Some (Viewport \<lparr>width = 375, height = 667\<rparr>)),
          Goto ''https://example.com'', WaitForTimeout 3000, WaitForTimeout 10000]
   \<and> map_option code (sent (res (fst (api_screenrecord exampleRuntime engineOK
           ((exampleQuery ''phone'')\<lparr>duration := Some ''abc''\<rparr>) exampleWorld)))) \<noteq> Some 400
   \<and> api_screenrecord exampleRuntime engineOK ((exampleQuery ''phone'')\<lparr>duration := Some ''abc''\<rparr>)
        exampleWorld
       = api_screenrecord exampleRuntime engineOK ((exampleQuery ''phone'')\<lparr>duration := None\<rparr>)
           exampleWorld"
proof -
  let ?run = "api_screenrecord exampleRuntime engineOK
      ((exampleQuery ''phone'')\<lparr>duration := Some ''abc''\<rparr>) exampleWorld"
  have p: "parseInt ''abc'' = None"
    by code_simp
  have v: "validateInput (parsesURL exampleRuntime) (url (exampleQuery ''phone''))
      (Some (deviceParam (device (exampleQuery ''phone'')))) = None"
    by code_simp
  have r: "reachesRecording engineOK (deviceParam (device (exampleQuery ''phone'')))"
    by (simp add: reachesRecording_def engineOK_def)
  have q: "deviceParam (device (exampleQuery ''phone'')) = ''phone''"
    "the (url (exampleQuery ''phone'')) = ''https://example.com''"
    by (simp_all add: exampleQuery_def deviceParam_def)
  note t = unparsable_duration_is_default [OF p, of exampleRuntime "exampleQuery ''phone''"
      engineOK exampleWorld]
  from t v r obtain rest where "calls (fst ?run) =
      [Launch,
       NewContext (if deviceParam (device (exampleQuery ''phone'')) \<noteq> ''full''
                   then deviceProfile (deviceParam (device (exampleQuery ''phone'')))
                   else Some (Viewport \<lparr>width = 1920, height = 1080\<rparr>)),
       NewPage]
      @ (if deviceParam (device (exampleQuery ''phone'')) \<noteq> ''full''
         then [SetViewportSize (deviceProfile (deviceParam (device (exampleQuery ''phone''))))]
         else [])
      @ [Goto (the (url (exampleQuery ''phone''))), WaitForTimeout 3000, WaitForTimeout 10000]
      @ rest"
    by blast
  then have 1: "take 7 (calls (fst ?run))
       = [Launch, NewContext (Some (Viewport \<lparr>width = 375, height = 667\<rparr>)), NewPage,
          SetViewportSize (Some (Viewport \<lparr>width = 375, height = 667\<rparr>)),
          Goto ''https://example.com'', WaitForTimeout 3000, WaitForTimeout 10000]"
    by (simp add: q deviceProfile_table)
  from t v have 2: "map_option code (sent (res (fst ?run))) \<noteq> Some 400"
    by blast
  from t have 3: "recordDuration (Some ''abc'') = 10
      \<and> ?run = api_screenrecord exampleRuntime engineOK
            ((exampleQuery ''phone'')\<lparr>duration := None\<rparr>) exampleWorld"
    by blast
  from p 1 2 3 show ?thesis by blast
qed

end
